theory Spec2Isabelle
  imports Main "HOL-Library.AList"
begin

section \<open>unt-scan.py: data\<close>

text \<open>
  The script keeps three files in its storage directory, all written with \<open>pickle.dump\<close>
  or as the raw body of the HTTP response, and read back with \<open>pickle.load\<close>. A file's
  bytes are modelled by the object \<open>pickle.load\<close> returns for them: a dict of HTTP
  headers, the registry's list of identifiers, the advisory database, or nothing
  (\<open>Not_a_pickle\<close>, on which \<open>pickle.load\<close> raises). Loading a pickle of another kind
  than the reader expects is treated as a failed load as well. Of the I/O failures the
  missing file and the missing directory are modelled: \<open>open\<close> raises
  \<open>FileNotFoundError\<close> on a path whose directory does not exist, for reading and for
  writing.
\<close>

text \<open>One entry of \<open>content['releases'][codename]['binaries']\<close>.\<close>

record binary =
  bin_version :: string

record release =
  binaries :: "(string \<times> binary) list"

text \<open>
  One advisory of the database (\<open>content\<close> in \<open>filter_db\<close>). The keys \<open>'isummary'\<close>
  and \<open>'summary'\<close> may be missing. A Python dict is an association list in iteration
  order.
\<close>

record advisory =
  releases :: "(string \<times> release) list"
  isummary :: "string option"
  adv_summary :: "string option"
  adv_cves :: "string list"

type_synonym db = "(string \<times> advisory) list"

type_synonym headers = "(string \<times> string) list"

datatype bytes =
    Pickled_headers headers
  | Pickled_registry "string list"
  | Pickled_db db
  | Not_a_pickle

datatype node = Directory | Other_node

text \<open>The dict that \<open>filter_db\<close> yields.\<close>

record item =
  unt :: string
  name :: string
  version :: string
  summary :: string
  cves :: "string list"

text \<open>
  What the script prints. The three \<open>print\<close> calls of one alert are one \<open>Alert\<close>,
  holding the yielded item and the installed version.
\<close>

datatype line =
    Alert item string
  | Age int
  | Zero
  | Help
  | Getopt_message string

datatype request = HEAD | GET

text \<open>
  The state the script reads and changes: the files by path, what the path of the storage
  directory names, the HTTP requests sent so far, and standard output.
\<close>

record world =
  files :: "string \<rightharpoonup> bytes"
  nodes :: "string \<rightharpoonup> node"
  requests :: "request list"
  stdout :: "line list"

datatype error =
    FileNotFoundError
  | UnpicklingError
  | HTTPException
  | Unexpected_HEAD_response
  | Error_retrieving_database nat
  | Cannot_track_alerts
  | Not_a_directory string
  | IndexError

section \<open>Files and directories\<close>

text \<open>
  A path with its trailing slashes dropped (a path of slashes only is kept), the form under
  which \<open>nodes\<close> knows a directory; and \<open>os.path.dirname\<close>.
\<close>

definition strip_slashes :: "string \<Rightarrow> string" where
  "strip_slashes p =
     (if list_all (\<lambda>c. c = CHR ''/'') p then p
      else rev (dropWhile (\<lambda>c. c = CHR ''/'') (rev p)))"

definition dirname :: "string \<Rightarrow> string" where
  "dirname p = strip_slashes (rev (dropWhile (\<lambda>c. c \<noteq> CHR ''/'') (rev p)))"

text \<open>
  Whether the directory that holds the path exists. A bare file name lies in the current
  directory, which does.
\<close>

definition directory_exists :: "world \<Rightarrow> string \<Rightarrow> bool" where
  "directory_exists w p = (dirname p = [] \<or> nodes w (dirname p) = Some Directory)"

text \<open>
  \<open>open(p, 'rb')\<close> and \<open>open(p, 'rb+')\<close>: the bytes of the file, \<open>None\<close> for the
  \<open>FileNotFoundError\<close> of a missing file or directory.
\<close>

definition read_file :: "world \<Rightarrow> string \<Rightarrow> bytes option" where
  "read_file w p = (if directory_exists w p then files w p else None)"

text \<open>
  \<open>open(p, 'wb')\<close> or \<open>open(p, 'wb+')\<close> followed by the write: the file is created or
  replaced, unless its directory is missing.
\<close>

definition write_file :: "string \<Rightarrow> bytes \<Rightarrow> world \<Rightarrow> error + world" where
  "write_file p b w =
     (if directory_exists w p then Inr (w\<lparr>files := (files w)(p \<mapsto> b)\<rparr>)
      else Inl FileNotFoundError)"

section \<open>AlertRegistry\<close>

record AlertRegistry =
  storage_file :: string
  registry :: "string list"

definition save :: "AlertRegistry \<Rightarrow> world \<Rightarrow> error + world" where
  "save self w = write_file (storage_file self) (Pickled_registry (registry self)) w"

text \<open>
  \<open>__init__\<close>: the registry is loaded from the file; only on \<open>FileNotFoundError\<close> it
  starts empty and is saved at once, and a \<open>FileNotFoundError\<close> of that \<open>save()\<close>, raised
  inside the handler, is not caught.
\<close>

definition AlertRegistry_init :: "string \<Rightarrow> world \<Rightarrow> world \<times> (error + AlertRegistry)" where
  "AlertRegistry_init file w =
     (case read_file w file of
        None \<Rightarrow>
          (let self = \<lparr>storage_file = file, registry = []\<rparr>
           in case save self w of
                Inl err \<Rightarrow> (w, Inl err)
              | Inr w' \<Rightarrow> (w', Inr self))
      | Some (Pickled_registry r) \<Rightarrow> (w, Inr \<lparr>storage_file = file, registry = r\<rparr>)
      | Some _ \<Rightarrow> (w, Inl UnpicklingError))"

definition register :: "AlertRegistry \<Rightarrow> string \<Rightarrow> AlertRegistry" where
  "register self u = self\<lparr>registry := registry self @ [u]\<rparr>"

definition is_registered :: "AlertRegistry \<Rightarrow> string \<Rightarrow> bool" where
  "is_registered self u = List.member (registry self) u"

section \<open>filter_db\<close>

text \<open>
  The value of the variable \<open>codename\<close> that \<open>filter_db\<close> receives: the string
  \<open>get_codename\<close> returns, \<open>None\<close> when \<open>/etc/lsb-release\<close> has no
  \<open>DISTRIB_CODENAME\<close> line, or the list \<open>args\<close> that the branch of \<open>-c\<close> assigns.
\<close>

datatype codename = Codename string | Arguments "string list" | No_codename

text \<open>
  \<open>release_codename not in list(content['releases'].keys())\<close>, and the value
  \<open>content['releases'][release_codename]\<close> when the key is there. The keys are strings:
  a list or \<open>None\<close> equals none of them.
\<close>

fun lookup_release :: "codename \<Rightarrow> (string \<times> release) list \<Rightarrow> release option" where
  "lookup_release (Codename c) rs = map_of rs c"
| "lookup_release (Arguments a) rs = None"
| "lookup_release No_codename rs = None"

fun yield_binaries :: "string \<Rightarrow> advisory \<Rightarrow> (string \<times> binary) list \<Rightarrow> item list" where
  "yield_binaries u content [] = []"
| "yield_binaries u content ((package, contents) # rest) =
     \<lparr>unt = u, name = package, version = bin_version contents,
      summary = (case isummary content of
                   Some s \<Rightarrow> s
                 | None \<Rightarrow> (case adv_summary content of Some s \<Rightarrow> s | None \<Rightarrow> ''No summary'')),
      cves = adv_cves content\<rparr> # yield_binaries u content rest"

fun filter_db :: "db \<Rightarrow> codename \<Rightarrow> item list" where
  "filter_db [] release_codename = []"
| "filter_db ((u, content) # rest) release_codename =
     (case lookup_release release_codename (releases content) of
        None \<Rightarrow> filter_db rest release_codename
      | Some r \<Rightarrow> yield_binaries u content (binaries r) @ filter_db rest release_codename)"

text \<open>
  The dicts of a database have each key once: the advisory identifiers, and the package
  names of each release.
\<close>

definition unique_keys :: "db \<Rightarrow> bool" where
  "unique_keys d =
     (distinct (map fst d) \<and>
      list_all (\<lambda>(u, content). list_all (\<lambda>(c, r). distinct (map fst (binaries r))) (releases content)) d)"

text \<open>The item that the pair of an advisory and one of its packages gives.\<close>

definition yielded :: "string \<Rightarrow> advisory \<Rightarrow> string \<Rightarrow> binary \<Rightarrow> item" where
  "yielded u content p b =
     \<lparr>unt = u, name = p, version = bin_version b,
      summary = (case isummary content of
                   Some s \<Rightarrow> s
                 | None \<Rightarrow> (case adv_summary content of Some s \<Rightarrow> s | None \<Rightarrow> ''No summary'')),
      cves = adv_cves content\<rparr>"

section \<open>Configuration and environment\<close>

text \<open>
  The entries of \<open>CONFIG\<close> that the control flow reads. Host, URL and scheme only select
  the server, whose answers are part of the environment below.
\<close>

record config =
  PERSISTENT_STORAGE :: bool
  DIRECTORY :: string
  ALERT_ONCE :: bool

definition CONFIG :: config where
  "CONFIG = \<lparr>PERSISTENT_STORAGE = True, DIRECTORY = ''/var/lib/unt-scan'', ALERT_ONCE = True\<rparr>"

record response =
  status :: nat
  getheaders :: "(string \<times> string) list"
  body :: bytes

text \<open>
  What a run reads and does not change: the server's answer to \<open>HEAD\<close> and to \<open>GET\<close>
  (\<open>None\<close> when \<open>http.client\<close> raises), the lines of \<open>/etc/lsb-release\<close> (\<open>None\<close>
  when the file is missing), the \<open>apt\<close> cache (a package it knows maps to its installed
  version, or to \<open>None\<close> when it is not installed), \<open>apt_pkg.version_compare\<close>, and for
  a \<open>Last-Modified\<close> value the number that \<open>show_age\<close> prints (\<open>None\<close> when
  \<open>parsedate\<close> or \<open>mktime\<close> fails on it).
\<close>

record env =
  head_response :: "response option"
  get_response :: "response option"
  lsb_release :: "string list option"
  cache :: "string \<rightharpoonup> string option"
  version_compare :: "string \<Rightarrow> string \<Rightarrow> int"
  age_of :: "string \<Rightarrow> int option"

definition print :: "line \<Rightarrow> world \<Rightarrow> world" where
  "print l w = w\<lparr>stdout := stdout w @ [l]\<rparr>"

definition send :: "request \<Rightarrow> world \<Rightarrow> world" where
  "send r w = w\<lparr>requests := requests w @ [r]\<rparr>"

text \<open>\<open>os.path.join\<close> with a second part that is a relative file name.\<close>

definition path_join :: "string \<Rightarrow> string \<Rightarrow> string" where
  "path_join a b = (if a = [] \<or> last a = CHR ''/'' then a @ b else a @ ''/'' @ b)"

text \<open>Python's \<open><\<close> on strings: by code point, a proper prefix first.\<close>

fun str_lt :: "string \<Rightarrow> string \<Rightarrow> bool" where
  "str_lt [] [] = False"
| "str_lt [] (y # ys) = True"
| "str_lt (x # xs) [] = False"
| "str_lt (x # xs) (y # ys) =
     (if (of_char x :: nat) < of_char y then True
      else if (of_char y :: nat) < of_char x then False
      else str_lt xs ys)"

section \<open>database_file\<close>

text \<open>The loop that turns the header tuples into a dict.\<close>

fun restructure :: "(string \<times> string) list \<Rightarrow> headers \<Rightarrow> headers" where
  "restructure [] headers = headers"
| "restructure (item # rest) headers =
     restructure rest (AList.update (fst item) (snd item) headers)"

text \<open>The variable \<open>update\<close> after the comparison of the headers (lines 131 to 137).\<close>

definition update_flag :: "headers \<Rightarrow> headers \<Rightarrow> bool" where
  "update_flag headers old_headers =
     (case (map_of headers ''ETag'', map_of old_headers ''ETag'') of
        (Some new_etag, Some old_etag) \<Rightarrow> (if new_etag = old_etag then False else True)
      | _ \<Rightarrow>
          (case (map_of headers ''Last-Modified'', map_of old_headers ''Last-Modified'') of
             (Some new_modified, Some old_modified) \<Rightarrow>
               (if str_lt old_modified new_modified then False else True)
           | _ \<Rightarrow> True))"

text \<open>The \<open>GET\<close> request and the write of \<open>db.pickle\<close> (lines 147 to 164).\<close>

definition download :: "env \<Rightarrow> config \<Rightarrow> world \<Rightarrow> world \<times> (error + bytes)" where
  "download e cfg w =
     (let w1 = send GET w in
      case get_response e of
        None \<Rightarrow> (w1, Inl HTTPException)
      | Some r \<Rightarrow>
          if status r \<noteq> 200 then (w1, Inl (Error_retrieving_database (status r)))
          else
            (case write_file (path_join (DIRECTORY cfg) ''db.pickle'') (body r) w1 of
               Inl err \<Rightarrow> (w1, Inl err)
             | Inr w2 \<Rightarrow> (w2, Inr (body r))))"

text \<open>
  The function returns a file handle, which \<open>pickle.load\<close> then reads: here the bytes
  read from it.
\<close>

definition database_file :: "env \<Rightarrow> config \<Rightarrow> world \<Rightarrow> world \<times> (error + bytes)" where
  "database_file e cfg w =
     (if \<not> PERSISTENT_STORAGE cfg then
        (let w1 = send GET w in
         case get_response e of
           None \<Rightarrow> (w1, Inl HTTPException)
         | Some r \<Rightarrow> (w1, Inr (body r)))
      else
        (let w1 = send HEAD w in
         case head_response e of
           None \<Rightarrow> (w1, Inl HTTPException)
         | Some r \<Rightarrow>
             if status r \<noteq> 200 then (w1, Inl Unexpected_HEAD_response)
             else
               (let headers = restructure (getheaders r) [];
                    metadata = path_join (DIRECTORY cfg) ''db.metadata.pickle''
                in case (case read_file w1 metadata of
                           None \<Rightarrow> Inr []
                         | Some (Pickled_headers h) \<Rightarrow> Inr h
                         | Some _ \<Rightarrow> Inl UnpicklingError) of
                     Inl err \<Rightarrow> (w1, Inl err)
                   | Inr old_headers \<Rightarrow>
                       (case write_file metadata (Pickled_headers headers) w1 of
                          Inl err \<Rightarrow> (w1, Inl err)
                        | Inr w2 \<Rightarrow>
                            if update_flag headers old_headers then download e cfg w2
                            else
                              (case read_file w2 (path_join (DIRECTORY cfg) ''db.pickle'') of
                                 Some b \<Rightarrow> (w2, Inr b)
                               | None \<Rightarrow> download e cfg w2)))))"

section \<open>get_codename, show_age, show_help\<close>

definition startswith :: "string \<Rightarrow> string \<Rightarrow> bool" where
  "startswith s p = (take (length p) s = p)"

text \<open>\<open>line.split('=')\<close>.\<close>

fun split_eq :: "string \<Rightarrow> string list" where
  "split_eq [] = [[]]"
| "split_eq (c # cs) =
     (if c = CHR ''='' then [] # split_eq cs
      else (case split_eq cs of [] \<Rightarrow> [[c]] | p # ps \<Rightarrow> (c # p) # ps))"

text \<open>The characters below 128 that \<open>str.isspace\<close> accepts, and \<open>str.rstrip()\<close>.\<close>

definition isspace :: "char \<Rightarrow> bool" where
  "isspace c = ((9 \<le> (of_char c :: nat) \<and> (of_char c :: nat) \<le> 13)
                \<or> (28 \<le> (of_char c :: nat) \<and> (of_char c :: nat) \<le> 32))"

definition rstrip :: "string \<Rightarrow> string" where
  "rstrip s = rev (dropWhile isspace (rev s))"

fun codename_of_lines :: "string list \<Rightarrow> error + codename" where
  "codename_of_lines [] = Inr No_codename"
| "codename_of_lines (l # rest) =
     (if startswith l ''DISTRIB_CODENAME='' then
        (case split_eq l of
           _ # x # _ \<Rightarrow> Inr (Codename (rstrip x))
         | _ \<Rightarrow> Inl IndexError)
      else codename_of_lines rest)"

definition get_codename :: "env \<Rightarrow> error + codename" where
  "get_codename e =
     (case lsb_release e of
        None \<Rightarrow> Inl FileNotFoundError
      | Some ls \<Rightarrow> codename_of_lines ls)"

text \<open>
  \<open>show_age\<close>: every exception inside the \<open>try\<close> prints \<open>0\<close>; the \<open>if\<close> on the
  \<open>Last-Modified\<close> key has no \<open>else\<close>.
\<close>

definition show_age :: "env \<Rightarrow> config \<Rightarrow> world \<Rightarrow> world" where
  "show_age e cfg w =
     (case read_file w (path_join (DIRECTORY cfg) ''db.metadata.pickle'') of
        Some (Pickled_headers headers) \<Rightarrow>
          (case map_of headers ''Last-Modified'' of
             Some modified \<Rightarrow>
               (case age_of e modified of
                  Some age \<Rightarrow> print (Age age) w
                | None \<Rightarrow> print Zero w)
           | None \<Rightarrow> w)
      | _ \<Rightarrow> print Zero w)"

text \<open>\<open>show_help\<close> formats the text with \<open>get_codename()\<close>, which may raise.\<close>

definition show_help :: "env \<Rightarrow> world \<Rightarrow> world \<times> (error + unit)" where
  "show_help e w =
     (case get_codename e of
        Inl err \<Rightarrow> (w, Inl err)
      | Inr c \<Rightarrow> (print Help w, Inr ()))"

section \<open>The main program\<close>

text \<open>
  How the process ends: \<open>sys.exit\<close> with a status (falling off the end is status 0), or
  an exception that nothing catches, on which the interpreter ends with status 1.
\<close>

datatype outcome = Exit nat | Uncaught error

fun exit_status :: "outcome \<Rightarrow> nat" where
  "exit_status (Exit n) = n"
| "exit_status (Uncaught err) = 1"

text \<open>What \<open>getopt.getopt\<close> gives for the arguments: an error, or \<open>opts\<close> and \<open>args\<close>.\<close>

datatype getopt_result = GetoptError string | Parsed "(string \<times> string) list" "string list"

text \<open>
  The loop over \<open>opts\<close> (lines 239 to 254), on the configuration and the variable
  \<open>codename\<close> (\<open>None\<close> while it is not in \<open>vars()\<close>): first its body, for one pair
  \<open>(o, a)\<close>, then the loop. The branches of \<open>-h\<close> and \<open>-A\<close> end the process.
\<close>

definition option_step :: "env \<Rightarrow> string list \<Rightarrow> string \<times> string \<Rightarrow> config \<Rightarrow> codename option
    \<Rightarrow> world \<Rightarrow> world \<times> (outcome + config \<times> codename option)" where
  "option_step e args oa cfg codename w =
     (let opt = fst oa; a = snd oa in
      if opt = ''-h'' \<or> opt = ''--help'' then
        (case show_help e w of
           (w', Inl err) \<Rightarrow> (w', Inl (Uncaught err))
         | (w', Inr _) \<Rightarrow> (w', Inl (Exit 0)))
      else if opt = ''-d'' \<or> opt = ''--directory='' then
        (w, Inr (cfg\<lparr>PERSISTENT_STORAGE := True, DIRECTORY := a\<rparr>, codename))
      else if opt = ''-a'' \<or> opt = ''--all'' then
        (w, Inr (cfg\<lparr>ALERT_ONCE := False\<rparr>, codename))
      else if opt = ''-o'' \<or> opt = ''--once'' then
        (w, Inr (cfg\<lparr>ALERT_ONCE := True\<rparr>, codename))
      else if opt = ''-c'' \<or> opt = ''--codename='' then
        (w, Inr (cfg, Some (Arguments args)))
      else if opt = ''-A'' \<or> opt = ''--age'' then
        (show_age e cfg w, Inl (Exit 0))
      else (w, Inr (cfg, codename)))"

fun options :: "env \<Rightarrow> string list \<Rightarrow> (string \<times> string) list \<Rightarrow> config \<Rightarrow> codename option
    \<Rightarrow> world \<Rightarrow> world \<times> (outcome + config \<times> codename option)" where
  "options e args [] cfg codename w = (w, Inr (cfg, codename))"
| "options e args (oa # opts) cfg codename w =
     (case option_step e args oa cfg codename w of
        (w', Inl out) \<Rightarrow> (w', Inl out)
      | (w', Inr (cfg', codename')) \<Rightarrow> options e args opts cfg' codename' w')"

text \<open>
  The check of the storage directory (lines 262 to 266). On the empty path \<open>isdir\<close> and
  \<open>exists\<close> are false and \<open>os.makedirs\<close> raises \<open>FileNotFoundError\<close>.
\<close>

definition ensure_directory :: "config \<Rightarrow> world \<Rightarrow> world \<times> (error + unit)" where
  "ensure_directory cfg w =
     (if DIRECTORY cfg = [] then (w, Inl FileNotFoundError)
      else
        (case nodes w (strip_slashes (DIRECTORY cfg)) of
           Some Directory \<Rightarrow> (w, Inr ())
         | None \<Rightarrow>
             (w\<lparr>nodes := (nodes w)(strip_slashes (DIRECTORY cfg) \<mapsto> Directory)\<rparr>, Inr ())
         | Some Other_node \<Rightarrow> (w, Inl (Not_a_directory (DIRECTORY cfg)))))"

definition pickle_load_db :: "bytes \<Rightarrow> error + db" where
  "pickle_load_db b = (case b of Pickled_db d \<Rightarrow> Inr d | _ \<Rightarrow> Inl UnpicklingError)"

text \<open>The variables of the scan loop: the registry object, \<open>issues_found\<close>, and the world.\<close>

record scanner =
  registry_of :: AlertRegistry
  issues_found :: bool
  world_of :: world

text \<open>The body of the loop over \<open>filter_db(db, codename)\<close> (lines 277 to 292).\<close>

definition cross_reference :: "env \<Rightarrow> config \<Rightarrow> scanner \<Rightarrow> item \<Rightarrow> scanner" where
  "cross_reference e cfg s package =
     (case cache e (name package) of
        Some (Some installed_version) \<Rightarrow>
          (if version_compare e installed_version (version package) < 0 then
             (let alert = (if ALERT_ONCE cfg then \<not> is_registered (registry_of s) (unt package)
                           else True)
              in if alert then
                   s\<lparr>registry_of := register (registry_of s) (unt package),
                     issues_found := True,
                     world_of := print (Alert package installed_version) (world_of s)\<rparr>
                 else s)
           else s)
      | _ \<Rightarrow> s)"

fun scan_loop :: "env \<Rightarrow> config \<Rightarrow> scanner \<Rightarrow> item list \<Rightarrow> scanner" where
  "scan_loop e cfg s [] = s"
| "scan_loop e cfg s (package # rest) = scan_loop e cfg (cross_reference e cfg s package) rest"

text \<open>
  Lines 274 to 297: the registry is loaded, the loop runs over the filtered database, the
  registry is saved, and the status is 1 when \<open>issues_found\<close> is set. An exception of
  the load or of the save ends the run.
\<close>

definition scan :: "env \<Rightarrow> config \<Rightarrow> db \<Rightarrow> codename \<Rightarrow> world \<Rightarrow> world \<times> outcome" where
  "scan e cfg d codename w =
     (case AlertRegistry_init (path_join (DIRECTORY cfg) ''alerts.pickle'') w of
        (w1, Inl err) \<Rightarrow> (w1, Uncaught err)
      | (w1, Inr r) \<Rightarrow>
          (let s = scan_loop e cfg \<lparr>registry_of = r, issues_found = False, world_of = w1\<rparr>
                     (filter_db d codename)
           in case save (registry_of s) (world_of s) of
                Inl err \<Rightarrow> (world_of s, Uncaught err)
              | Inr w2 \<Rightarrow> (w2, if issues_found s then Exit 1 else Exit 0)))"

definition main :: "env \<Rightarrow> getopt_result \<Rightarrow> world \<Rightarrow> world \<times> outcome" where
  "main e g w =
     (case g of
        GetoptError err \<Rightarrow> (print (Getopt_message err) w, Exit 2)
      | Parsed opts args \<Rightarrow>
          (case options e args opts CONFIG None w of
             (w1, Inl out) \<Rightarrow> (w1, out)
           | (w1, Inr (cfg, codename_var)) \<Rightarrow>
               if ALERT_ONCE cfg \<and> \<not> PERSISTENT_STORAGE cfg then (w1, Uncaught Cannot_track_alerts)
               else
                 (case (case codename_var of Some c \<Rightarrow> Inr c | None \<Rightarrow> get_codename e) of
                    Inl err \<Rightarrow> (w1, Uncaught err)
                  | Inr codename \<Rightarrow>
                      (case ensure_directory cfg w1 of
                         (w2, Inl err) \<Rightarrow> (w2, Uncaught err)
                       | (w2, Inr _) \<Rightarrow>
                           (case database_file e cfg w2 of
                              (w3, Inl err) \<Rightarrow> (w3, Uncaught err)
                            | (w3, Inr db_file) \<Rightarrow>
                                (case pickle_load_db db_file of
                                   Inl err \<Rightarrow> (w3, Uncaught err)
                                 | Inr d \<Rightarrow> scan e cfg d codename w3))))))"

text \<open>
  The items of the alerts among the printed lines, in order, and their advisory
  identifiers.
\<close>

fun alerts :: "line list \<Rightarrow> item list" where
  "alerts [] = []"
| "alerts (Alert t v # ls) = t # alerts ls"
| "alerts (l # ls) = alerts ls"

definition emitted :: "line list \<Rightarrow> string list" where
  "emitted ls = map unt (alerts ls)"

text \<open>The test of lines 277 to 279: the package is installed in a version below the fix.\<close>

definition vulnerable :: "env \<Rightarrow> item \<Rightarrow> bool" where
  "vulnerable e package =
     (case cache e (name package) of
        Some (Some installed_version) \<Rightarrow>
          version_compare e installed_version (version package) < 0
      | _ \<Rightarrow> False)"

section \<open>The version comparator\<close>

text \<open>
  Modelled from the spec: \<open>apt_pkg.version_compare\<close> belongs to the \<open>python-apt\<close>
  library, not to this repository; what follows is the comparator of section 4.3 of the
  specification, \<open>compare(a, b) -> {less, equal, greater}\<close>.
\<close>

datatype comparison = Less | Equal | Greater

definition is_digit :: "char \<Rightarrow> bool" where
  "is_digit c = (48 \<le> (of_char c :: nat) \<and> (of_char c :: nat) \<le> 57)"

definition is_letter :: "char \<Rightarrow> bool" where
  "is_letter c = ((65 \<le> (of_char c :: nat) \<and> (of_char c :: nat) \<le> 90)
                 \<or> (97 \<le> (of_char c :: nat) \<and> (of_char c :: nat) \<le> 122))"

definition compare_int :: "int \<Rightarrow> int \<Rightarrow> comparison" where
  "compare_int m n = (if m < n then Less else if n < m then Greater else Equal)"

text \<open>
  Modelled from the spec: the modified ordering of the characters of a non-digit run. The
  end of a run weighs 0; \<open>~\<close> sorts before it, letters sort before every other
  character.
\<close>

definition weight :: "char \<Rightarrow> int" where
  "weight c = (if c = CHR ''~'' then - 1
               else if is_letter c then of_char c
               else of_char c + 256)"

text \<open>Modelled from the spec: non-digit runs compare lexically by the modified ordering.\<close>

fun compare_non_digits :: "string \<Rightarrow> string \<Rightarrow> comparison" where
  "compare_non_digits [] [] = Equal"
| "compare_non_digits [] (y # ys) = compare_int 0 (weight y)"
| "compare_non_digits (x # xs) [] = compare_int (weight x) 0"
| "compare_non_digits (x # xs) (y # ys) =
     (if weight x = weight y then compare_non_digits xs ys
      else compare_int (weight x) (weight y))"

text \<open>
  Modelled from the spec: a digit run is read as an unsigned integer, so leading zeros do
  not count.
\<close>

fun digits_value :: "nat \<Rightarrow> string \<Rightarrow> nat" where
  "digits_value n [] = n"
| "digits_value n (c # cs) = digits_value (10 * n + (of_char c - 48)) cs"

lemma drop_runs_shorter:
  assumes "a \<noteq> []"
  shows "length (dropWhile is_digit (dropWhile (\<lambda>c. \<not> is_digit c) a)) < length a"
proof (cases a)
  case Nil
  with assms show ?thesis by simp
next
  case (Cons x xs)
  have le: "\<And>P (ys :: string). length (dropWhile P ys) \<le> length ys"
    by (simp add: length_dropWhile_le)
  show ?thesis
  proof (cases "is_digit x")
    case True
    then have "dropWhile is_digit (dropWhile (\<lambda>c. \<not> is_digit c) a) = dropWhile is_digit xs"
      using Cons by simp
    with le [of is_digit xs] Cons show ?thesis by simp
  next
    case False
    then have "dropWhile (\<lambda>c. \<not> is_digit c) a = dropWhile (\<lambda>c. \<not> is_digit c) xs"
      using Cons by simp
    moreover have "length (dropWhile is_digit (dropWhile (\<lambda>c. \<not> is_digit c) xs)) \<le> length xs"
      using le [of is_digit "dropWhile (\<lambda>c. \<not> is_digit c) xs"] le [of "\<lambda>c. \<not> is_digit c" xs]
      by simp
    ultimately show ?thesis using Cons by simp
  qed
qed

lemma drop_runs_le:
  "length (dropWhile is_digit (dropWhile (\<lambda>c. \<not> is_digit c) a)) \<le> length a"
  by (metis dual_order.trans length_dropWhile_le)

text \<open>
  Modelled from the spec: the segment algorithm. Maximal runs of non-digits and of digits
  alternate; the comparison goes run by run until a difference is found or both strings
  are exhausted.
\<close>

function compare_segments :: "string \<Rightarrow> string \<Rightarrow> comparison" where
  "compare_segments a b =
     (if a = [] \<and> b = [] then Equal
      else
        (case compare_non_digits (takeWhile (\<lambda>c. \<not> is_digit c) a)
                                 (takeWhile (\<lambda>c. \<not> is_digit c) b) of
           Less \<Rightarrow> Less
         | Greater \<Rightarrow> Greater
         | Equal \<Rightarrow>
             (case compare_int
                     (int (digits_value 0 (takeWhile is_digit (dropWhile (\<lambda>c. \<not> is_digit c) a))))
                     (int (digits_value 0 (takeWhile is_digit (dropWhile (\<lambda>c. \<not> is_digit c) b)))) of
                Less \<Rightarrow> Less
              | Greater \<Rightarrow> Greater
              | Equal \<Rightarrow>
                  compare_segments (dropWhile is_digit (dropWhile (\<lambda>c. \<not> is_digit c) a))
                                   (dropWhile is_digit (dropWhile (\<lambda>c. \<not> is_digit c) b)))))"
  by pat_completeness auto
termination
proof (relation "measure (\<lambda>(a, b). length a + length b)")
  show "wf (measure (\<lambda>(a, b). length a + length b))" by simp
next
  fix a b :: string
  assume "\<not> (a = [] \<and> b = [])"
  then show "((dropWhile is_digit (dropWhile (\<lambda>c. \<not> is_digit c) a),
               dropWhile is_digit (dropWhile (\<lambda>c. \<not> is_digit c) b)), a, b)
             \<in> measure (\<lambda>(a, b). length a + length b)"
    using drop_runs_shorter [of a] drop_runs_shorter [of b] drop_runs_le [of a] drop_runs_le [of b]
    by (cases "a = []"; cases "b = []") (simp_all add: add_less_le_mono add_le_less_mono)
qed

declare compare_segments.simps [simp del]

text \<open>
  Modelled from the spec: a version is \<open>[epoch:]upstream-version[-debian-revision]\<close>; a
  missing epoch is \<open>0\<close>, a missing revision is empty.
\<close>

fun split_epoch :: "string \<Rightarrow> string \<times> string" where
  "split_epoch v =
     (if CHR '':'' \<in> set v then (takeWhile (\<lambda>c. c \<noteq> CHR '':'') v, tl (dropWhile (\<lambda>c. c \<noteq> CHR '':'') v))
      else (''0'', v))"

fun split_revision :: "string \<Rightarrow> string \<times> string" where
  "split_revision v =
     (if CHR ''-'' \<in> set v
      then (rev (tl (dropWhile (\<lambda>c. c \<noteq> CHR ''-'') (rev v))), rev (takeWhile (\<lambda>c. c \<noteq> CHR ''-'') (rev v)))
      else (v, []))"

text \<open>
  Modelled from the spec: epochs are compared first, as unsigned integers, and a difference
  there decides; then the upstream versions, then the revisions, by the segment algorithm.
\<close>

definition compare :: "string \<Rightarrow> string \<Rightarrow> comparison" where
  "compare a b =
     (case compare_int (int (digits_value 0 (fst (split_epoch a))))
                       (int (digits_value 0 (fst (split_epoch b)))) of
        Less \<Rightarrow> Less
      | Greater \<Rightarrow> Greater
      | Equal \<Rightarrow>
          (case compare_segments (fst (split_revision (snd (split_epoch a))))
                                 (fst (split_revision (snd (split_epoch b)))) of
             Less \<Rightarrow> Less
           | Greater \<Rightarrow> Greater
           | Equal \<Rightarrow>
               compare_segments (snd (split_revision (snd (split_epoch a))))
                                (snd (split_revision (snd (split_epoch b))))))"

section \<open>An example: one advisory, one host\<close>

text \<open>
  The advisory \<open>USN-42-1\<close> fixes two packages of \<open>bionic\<close> in version
  \<open>7.58.0-2ubuntu3.8\<close>; the host runs \<open>bionic\<close> with both installed in version
  \<open>7.58.0-2ubuntu3.6\<close>. The comparator of the example orders strings by code point; on
  these two versions \<open>apt_pkg.version_compare\<close> is negative as well.
\<close>

definition example_feed :: db where
  "example_feed =
     [(''USN-42-1'',
       \<lparr>releases = [(''bionic'',
           \<lparr>binaries = [(''curl'', \<lparr>bin_version = ''7.58.0-2ubuntu3.8''\<rparr>),
                        (''libcurl4'', \<lparr>bin_version = ''7.58.0-2ubuntu3.8''\<rparr>)]\<rparr>)],
        isummary = None, adv_summary = Some ''curl vulnerability'',
        adv_cves = [''CVE-2019-5436'']\<rparr>)]"

definition example_host :: env where
  "example_host =
     \<lparr>head_response = Some \<lparr>status = 200, getheaders = [(''ETag'', ''abc'')], body = Not_a_pickle\<rparr>,
      get_response = Some \<lparr>status = 200, getheaders = [], body = Pickled_db example_feed\<rparr>,
      lsb_release = Some [''DISTRIB_ID=Ubuntu\<newline>'', ''DISTRIB_CODENAME=bionic\<newline>''],
      cache = [''curl'' \<mapsto> Some ''7.58.0-2ubuntu3.6'', ''libcurl4'' \<mapsto> Some ''7.58.0-2ubuntu3.6''],
      version_compare = (\<lambda>a b. if str_lt a b then - 1 else if str_lt b a then 1 else 0),
      age_of = (\<lambda>modified. Some 3600)\<rparr>"

definition example_world :: world where
  "example_world =
     \<lparr>files = Map.empty, nodes = [''/var/lib/unt-scan'' \<mapsto> Directory], requests = [], stdout = []\<rparr>"

section \<open>Properties of the registry\<close>

lemmas run_defs = main_def CONFIG_def get_codename_def startswith_def rstrip_def isspace_def
  ensure_directory_def database_file_def send_def path_join_def write_file_def update_flag_def
  download_def pickle_load_db_def scan_def AlertRegistry_init_def save_def Let_def
  cross_reference_def is_registered_def register_def print_def option_step_def show_age_def
  show_help_def emitted_def read_file_def directory_exists_def dirname_def strip_slashes_def

lemmas example_defs = example_host_def example_world_def example_feed_def

lemma is_registered_iff: "is_registered self u \<longleftrightarrow> u \<in> set (registry self)"
  by (simp add: is_registered_def)

lemma directory_exists_nodes:
  "nodes w' = nodes w \<Longrightarrow> directory_exists w' p = directory_exists w p"
  by (simp add: directory_exists_def)

text \<open>\<open>save()\<close> writes the pickled list, or raises when the directory is missing.\<close>

lemma save_eq:
  "save self w =
     (if directory_exists w (storage_file self)
      then Inr (w\<lparr>files := (files w)(storage_file self \<mapsto> Pickled_registry (registry self))\<rparr>)
      else Inl FileNotFoundError)"
  by (simp add: save_def write_file_def)

lemma init_after_save:
  "save self w = Inr w' \<Longrightarrow> AlertRegistry_init (storage_file self) w' = (w', Inr self)"
  by (auto simp: save_eq AlertRegistry_init_def read_file_def directory_exists_def
      split: if_splits)

lemma init_without_directory:
  "\<not> directory_exists w file \<Longrightarrow> AlertRegistry_init file w = (w, Inl FileNotFoundError)"
  by (simp add: AlertRegistry_init_def read_file_def save_eq)

lemma init_creates:
  "directory_exists w file \<Longrightarrow> files w file = None \<Longrightarrow>
   AlertRegistry_init file w =
     (w\<lparr>files := (files w)(file \<mapsto> Pickled_registry [])\<rparr>, Inr \<lparr>storage_file = file, registry = []\<rparr>)"
  by (simp add: AlertRegistry_init_def read_file_def save_eq)

text \<open>
  C6, as stated, fails on its last part: at the script's own path, before the storage
  directory exists, no file is there and the load does not give an empty registry: the
  \<open>save()\<close> inside \<open>__init__\<close> raises \<open>FileNotFoundError\<close> and nothing is written.
\<close>

theorem load_without_directory_raises:
  "files \<lparr>files = Map.empty, nodes = Map.empty, requests = [], stdout = []\<rparr>
      ''/var/lib/unt-scan/alerts.pickle'' = None
   \<and> AlertRegistry_init ''/var/lib/unt-scan/alerts.pickle''
        \<lparr>files = Map.empty, nodes = Map.empty, requests = [], stdout = []\<rparr>
      = (\<lparr>files = Map.empty, nodes = Map.empty, requests = [], stdout = []\<rparr>,
         Inl FileNotFoundError)"
  by (simp add: run_defs)

text \<open>
  C6, as amended. Where the directory of the path exists: \<open>save()\<close> after \<open>register(u)\<close>
  succeeds, and a registry then loaded from the same path holds \<open>u\<close> and holds no other
  identifier that the registry did not hold before; and loading from a path with no file
  gives an empty registry, leaves the empty list pickled at that path, and a second load
  gives the same registry. Where the directory does not exist, \<open>save()\<close> and the load
  raise \<open>FileNotFoundError\<close> and the load leaves the world as it was.
\<close>

theorem registry_round_trip:
  "(directory_exists w (storage_file self) \<longrightarrow>
      (\<exists>w1 r'. save (register self u) w = Inr w1
         \<and> AlertRegistry_init (storage_file self) w1 = (w1, Inr r')
         \<and> is_registered r' u
         \<and> (\<forall>v. v \<noteq> u \<and> \<not> is_registered self v \<longrightarrow> \<not> is_registered r' v)))
   \<and> (directory_exists w file \<and> files w file = None \<longrightarrow>
       (\<exists>w' r'. AlertRegistry_init file w = (w', Inr r')
          \<and> registry r' = []
          \<and> (\<forall>v. \<not> is_registered r' v)
          \<and> files w' file = Some (Pickled_registry [])
          \<and> AlertRegistry_init file w' = (w', Inr r')))
   \<and> (\<not> directory_exists w (storage_file self) \<longrightarrow>
         save (register self u) w = Inl FileNotFoundError)
   \<and> (\<not> directory_exists w file \<longrightarrow>
         AlertRegistry_init file w = (w, Inl FileNotFoundError))"
proof (intro conjI impI)
  let ?s = "register self u"
  have sf: "storage_file ?s = storage_file self"
    by (simp add: register_def)
  assume dir: "directory_exists w (storage_file self)"
  then obtain w1 where sv: "save ?s w = Inr w1"
    by (simp add: save_eq sf)
  from init_after_save [OF sv] have "AlertRegistry_init (storage_file self) w1 = (w1, Inr ?s)"
    by (simp add: sf)
  moreover have "is_registered ?s u"
    by (simp add: is_registered_iff register_def)
  moreover have "\<forall>v. v \<noteq> u \<and> \<not> is_registered self v \<longrightarrow> \<not> is_registered ?s v"
    by (simp add: is_registered_iff register_def)
  ultimately show "\<exists>w1 r'. save ?s w = Inr w1
         \<and> AlertRegistry_init (storage_file self) w1 = (w1, Inr r')
         \<and> is_registered r' u
         \<and> (\<forall>v. v \<noteq> u \<and> \<not> is_registered self v \<longrightarrow> \<not> is_registered r' v)"
    using sv by blast
next
  let ?r = "\<lparr>storage_file = file, registry = []\<rparr>"
  let ?w = "w\<lparr>files := (files w)(file \<mapsto> Pickled_registry [])\<rparr>"
  assume a: "directory_exists w file \<and> files w file = None"
  then have first: "AlertRegistry_init file w = (?w, Inr ?r)"
    by (simp add: init_creates)
  from a have "save ?r w = Inr ?w"
    by (simp add: save_eq)
  from init_after_save [OF this] have again: "AlertRegistry_init file ?w = (?w, Inr ?r)"
    by simp
  have "registry ?r = [] \<and> (\<forall>v. \<not> is_registered ?r v)
      \<and> files ?w file = Some (Pickled_registry [])"
    by (simp add: is_registered_iff)
  with first again show "\<exists>w' r'. AlertRegistry_init file w = (w', Inr r')
          \<and> registry r' = []
          \<and> (\<forall>v. \<not> is_registered r' v)
          \<and> files w' file = Some (Pickled_registry [])
          \<and> AlertRegistry_init file w' = (w', Inr r')"
    by blast
next
  assume "\<not> directory_exists w (storage_file self)"
  then show "save (register self u) w = Inl FileNotFoundError"
    by (simp add: save_eq register_def)
next
  assume "\<not> directory_exists w file"
  then show "AlertRegistry_init file w = (w, Inl FileNotFoundError)"
    by (rule init_without_directory)
qed

theorem registry_round_trip_witness:
  "directory_exists example_world ''/var/lib/unt-scan/alerts.pickle''
   \<and> files example_world ''/var/lib/unt-scan/alerts.pickle'' = None
   \<and> (\<exists>w1 r'. save (register \<lparr>storage_file = ''/var/lib/unt-scan/alerts.pickle'', registry = []\<rparr>
                        ''USN-1'') example_world = Inr w1
        \<and> AlertRegistry_init ''/var/lib/unt-scan/alerts.pickle'' w1 = (w1, Inr r')
        \<and> is_registered r' ''USN-1'' \<and> \<not> is_registered r' ''USN-2'')
   \<and> (\<exists>w' r'. AlertRegistry_init ''/var/lib/unt-scan/alerts.pickle'' example_world = (w', Inr r')
        \<and> registry r' = []
        \<and> files w' ''/var/lib/unt-scan/alerts.pickle'' = Some (Pickled_registry []))"
proof -
  have dir: "directory_exists example_world ''/var/lib/unt-scan/alerts.pickle''"
    by (simp add: directory_exists_def dirname_def strip_slashes_def example_world_def)
  have none: "files example_world ''/var/lib/unt-scan/alerts.pickle'' = None"
    by (simp add: example_world_def)
  have unreg: "\<not> is_registered \<lparr>storage_file = ''/var/lib/unt-scan/alerts.pickle'', registry = []\<rparr>
      ''USN-2''"
    by (simp add: is_registered_iff)
  from registry_round_trip [of example_world
      "\<lparr>storage_file = ''/var/lib/unt-scan/alerts.pickle'', registry = []\<rparr>" "''USN-1''"
      "''/var/lib/unt-scan/alerts.pickle''"] dir none unreg
  show ?thesis
    by auto
qed

section \<open>Properties of filter_db\<close>

lemma yield_binaries_map: "yield_binaries u content bs = map (\<lambda>(p, b). yielded u content p b) bs"
  by (induction bs) (auto simp: yielded_def)

lemma yield_binaries_unt: "t \<in> set (yield_binaries u content bs) \<Longrightarrow> unt t = u"
  by (auto simp: yield_binaries_map yielded_def)

lemma yield_binaries_other:
  "u' \<noteq> u \<Longrightarrow> filter (\<lambda>t. unt t = u \<and> name t = p) (yield_binaries u' content bs) = []"
  by (auto simp: filter_empty_conv dest: yield_binaries_unt)

lemma yield_binaries_one:
  "distinct (map fst bs) \<Longrightarrow> (p, b) \<in> set bs \<Longrightarrow>
   filter (\<lambda>t. unt t = u \<and> name t = p) (yield_binaries u content bs) = [yielded u content p b]"
proof (induction bs)
  case Nil
  then show ?case by simp
next
  case (Cons x bs)
  obtain q c where x: "x = (q, c)" by (cases x)
  show ?case
  proof (cases "q = p")
    case True
    with Cons.prems x have "p \<notin> fst ` set bs" and "c = b"
      by (auto simp: image_iff)
    then have "filter (\<lambda>t. unt t = u \<and> name t = p) (yield_binaries u content bs) = []"
      by (auto simp: filter_empty_conv yield_binaries_map yielded_def image_iff)
    with True x \<open>c = b\<close> show ?thesis by (simp add: yielded_def)
  next
    case False
    with Cons x show ?thesis by auto
  qed
qed

lemma filter_db_absent:
  "u \<notin> fst ` set d \<Longrightarrow> filter (\<lambda>t. unt t = u \<and> P t) (filter_db d c) = []"
proof (induction d)
  case Nil
  then show ?case by simp
next
  case (Cons x d)
  obtain u' content where x: "x = (u', content)" by (cases x)
  with Cons show ?case
    by (auto simp: filter_empty_conv split: option.splits dest: yield_binaries_unt)
qed

lemma filter_db_origin:
  "t \<in> set (filter_db d c) \<Longrightarrow>
   \<exists>u content r p b. (u, content) \<in> set d \<and> lookup_release c (releases content) = Some r
      \<and> (p, b) \<in> set (binaries r) \<and> t = yielded u content p b"
proof (induction d)
  case Nil
  then show ?case by simp
next
  case (Cons x d)
  obtain u' content where x: "x = (u', content)" by (cases x)
  show ?case
  proof (cases "t \<in> set (filter_db d c)")
    case True
    with Cons.IH show ?thesis by (meson list.set_intros(2))
  next
    case False
    with Cons.prems x obtain r where r: "lookup_release c (releases content) = Some r"
      and t: "t \<in> set (yield_binaries u' content (binaries r))"
      by (auto split: option.splits)
    from t obtain p b where "(p, b) \<in> set (binaries r)" "t = yielded u' content p b"
      by (auto simp: yield_binaries_map)
    with r x have "(u', content) \<in> set (x # d) \<and> lookup_release c (releases content) = Some r
      \<and> (p, b) \<in> set (binaries r) \<and> t = yielded u' content p b" by simp
    then show ?thesis by blast
  qed
qed

lemma lookup_release_binaries:
  "lookup_release c rs = Some r \<Longrightarrow> \<exists>k. (k, r) \<in> set rs"
  by (cases c) (auto dest: map_of_SomeD)

lemma filter_db_one:
  "unique_keys d \<Longrightarrow> (u, content) \<in> set d \<Longrightarrow> lookup_release c (releases content) = Some r \<Longrightarrow>
   (p, b) \<in> set (binaries r) \<Longrightarrow>
   filter (\<lambda>t. unt t = u \<and> name t = p) (filter_db d c) = [yielded u content p b]"
proof (induction d)
  case Nil
  then show ?case by simp
next
  case (Cons x d)
  obtain u' content' where x: "x = (u', content')" by (cases x)
  from Cons.prems(1) x have uk: "unique_keys d" and nin: "u' \<notin> fst ` set d"
    by (auto simp: unique_keys_def)
  show ?case
  proof (cases "(u, content) = (u', content')")
    case True
    from Cons.prems(3) obtain k where "(k, r) \<in> set (releases content)"
      using lookup_release_binaries by blast
    with Cons.prems(1) x True have "distinct (map fst (binaries r))"
      by (auto simp: unique_keys_def list_all_iff)
    then have one: "filter (\<lambda>t. unt t = u \<and> name t = p) (yield_binaries u content (binaries r))
        = [yielded u content p b]"
      using Cons.prems(4) by (rule yield_binaries_one)
    from nin True have "filter (\<lambda>t. unt t = u \<and> name t = p) (filter_db d c) = []"
      by (intro filter_db_absent) simp
    with one True x Cons.prems(3) show ?thesis by simp
  next
    case False
    with Cons.prems(2) x have mem: "(u, content) \<in> set d" by auto
    then have "u \<in> fst ` set d" by (force simp: image_iff)
    with nin have ne: "u' \<noteq> u" by auto
    have ih: "filter (\<lambda>t. unt t = u \<and> name t = p) (filter_db d c) = [yielded u content p b]"
      using Cons.IH [OF uk mem Cons.prems(3) Cons.prems(4)] .
    show ?thesis
      using x ih yield_binaries_other [OF ne] by (simp split: option.splits)
  qed
qed

lemma filter_db_none:
  "distinct (map fst d) \<Longrightarrow> (u, content) \<in> set d \<Longrightarrow> lookup_release c (releases content) = None \<Longrightarrow>
   filter (\<lambda>t. unt t = u) (filter_db d c) = []"
proof (induction d)
  case Nil
  then show ?case by simp
next
  case (Cons x d)
  obtain u' content' where x: "x = (u', content')" by (cases x)
  from Cons.prems(1) x have nin: "u' \<notin> fst ` set d" and dd: "distinct (map fst d)" by auto
  show ?case
  proof (cases "(u, content) = (u', content')")
    case True
    from nin True have "filter (\<lambda>t. unt t = u \<and> True) (filter_db d c) = []"
      by (intro filter_db_absent) simp
    with True x Cons.prems(3) show ?thesis by simp
  next
    case False
    with Cons.prems(2) x have mem: "(u, content) \<in> set d" by auto
    then have "u \<in> fst ` set d" by (force simp: image_iff)
    with nin have ne: "u' \<noteq> u" by auto
    have ih: "filter (\<lambda>t. unt t = u) (filter_db d c) = []"
      using Cons.IH [OF dd mem Cons.prems(3)] .
    show ?thesis
      using x ih ne by (auto simp: filter_empty_conv split: option.splits dest: yield_binaries_unt)
  qed
qed

text \<open>
  C4. For every database and codename: an advisory whose \<open>releases\<close> lacks the codename
  yields no item; an advisory whose \<open>releases\<close> has it yields, for each package of that
  release, exactly one item, holding the advisory's identifier, the package name, the fixed
  version, the CVE list and the summary (\<open>isummary\<close> if present, else \<open>summary\<close> if
  present, else \<open>No summary\<close>); every item yielded is one of these; and the number of
  items is the number of such pairs.
\<close>

theorem filter_db_exact:
  assumes "unique_keys d"
  shows "(\<forall>(u, content) \<in> set d.
            (case lookup_release c (releases content) of
               None \<Rightarrow> filter (\<lambda>t. unt t = u) (filter_db d c) = []
             | Some r \<Rightarrow>
                 (\<forall>(p, b) \<in> set (binaries r).
                    filter (\<lambda>t. unt t = u \<and> name t = p) (filter_db d c) =
                      [\<lparr>unt = u, name = p, version = bin_version b,
                        summary = (case isummary content of
                                     Some s \<Rightarrow> s
                                   | None \<Rightarrow> (case adv_summary content of
                                                Some s \<Rightarrow> s | None \<Rightarrow> ''No summary'')),
                        cves = adv_cves content\<rparr>])))
       \<and> (\<forall>t \<in> set (filter_db d c).
            \<exists>u content r p b. (u, content) \<in> set d
              \<and> lookup_release c (releases content) = Some r \<and> (p, b) \<in> set (binaries r)
              \<and> t = \<lparr>unt = u, name = p, version = bin_version b,
                        summary = (case isummary content of
                                     Some s \<Rightarrow> s
                                   | None \<Rightarrow> (case adv_summary content of
                                                Some s \<Rightarrow> s | None \<Rightarrow> ''No summary'')),
                        cves = adv_cves content\<rparr>)
       \<and> length (filter_db d c) =
            sum_list (map (\<lambda>(u, content). case lookup_release c (releases content) of
                                            None \<Rightarrow> 0 | Some r \<Rightarrow> length (binaries r)) d)"
proof (intro conjI)
  from assms have dd: "distinct (map fst d)"
    by (simp add: unique_keys_def)
  show "\<forall>(u, content) \<in> set d.
            (case lookup_release c (releases content) of
               None \<Rightarrow> filter (\<lambda>t. unt t = u) (filter_db d c) = []
             | Some r \<Rightarrow>
                 (\<forall>(p, b) \<in> set (binaries r).
                    filter (\<lambda>t. unt t = u \<and> name t = p) (filter_db d c) =
                      [\<lparr>unt = u, name = p, version = bin_version b,
                        summary = (case isummary content of
                                     Some s \<Rightarrow> s
                                   | None \<Rightarrow> (case adv_summary content of
                                                Some s \<Rightarrow> s | None \<Rightarrow> ''No summary'')),
                        cves = adv_cves content\<rparr>]))"
    using filter_db_none [OF dd] filter_db_one [OF assms]
    by (auto simp: yielded_def split: option.splits)
  show "\<forall>t \<in> set (filter_db d c).
            \<exists>u content r p b. (u, content) \<in> set d
              \<and> lookup_release c (releases content) = Some r \<and> (p, b) \<in> set (binaries r)
              \<and> t = \<lparr>unt = u, name = p, version = bin_version b,
                        summary = (case isummary content of
                                     Some s \<Rightarrow> s
                                   | None \<Rightarrow> (case adv_summary content of
                                                Some s \<Rightarrow> s | None \<Rightarrow> ''No summary'')),
                        cves = adv_cves content\<rparr>"
    using filter_db_origin [of _ d c] unfolding yielded_def by blast
  show "length (filter_db d c) =
            sum_list (map (\<lambda>(u, content). case lookup_release c (releases content) of
                                            None \<Rightarrow> 0 | Some r \<Rightarrow> length (binaries r)) d)"
    by (induction d) (auto simp: yield_binaries_map split: option.splits)
qed

theorem filter_db_exact_witness:
  "unique_keys
     [(''USN-1'', \<lparr>releases = [(''bionic'', \<lparr>binaries = [(''curl'', \<lparr>bin_version = ''7.58''\<rparr>),
                                                        (''libcurl4'', \<lparr>bin_version = ''7.58''\<rparr>)]\<rparr>)],
                  isummary = None, adv_summary = Some ''curl could crash'', adv_cves = [''CVE-1'']\<rparr>),
      (''USN-2'', \<lparr>releases = [(''xenial'', \<lparr>binaries = [(''vim'', \<lparr>bin_version = ''8.0''\<rparr>)]\<rparr>)],
                  isummary = None, adv_summary = None, adv_cves = []\<rparr>)]
   \<and> filter (\<lambda>t. unt t = ''USN-1'' \<and> name t = ''curl'')
        (filter_db
           [(''USN-1'', \<lparr>releases = [(''bionic'', \<lparr>binaries = [(''curl'', \<lparr>bin_version = ''7.58''\<rparr>),
                                                        (''libcurl4'', \<lparr>bin_version = ''7.58''\<rparr>)]\<rparr>)],
                  isummary = None, adv_summary = Some ''curl could crash'', adv_cves = [''CVE-1'']\<rparr>),
            (''USN-2'', \<lparr>releases = [(''xenial'', \<lparr>binaries = [(''vim'', \<lparr>bin_version = ''8.0''\<rparr>)]\<rparr>)],
                  isummary = None, adv_summary = None, adv_cves = []\<rparr>)]
           (Codename ''bionic''))
      = [\<lparr>unt = ''USN-1'', name = ''curl'', version = ''7.58'', summary = ''curl could crash'',
          cves = [''CVE-1'']\<rparr>]
   \<and> filter (\<lambda>t. unt t = ''USN-2'')
        (filter_db
           [(''USN-1'', \<lparr>releases = [(''bionic'', \<lparr>binaries = [(''curl'', \<lparr>bin_version = ''7.58''\<rparr>),
                                                        (''libcurl4'', \<lparr>bin_version = ''7.58''\<rparr>)]\<rparr>)],
                  isummary = None, adv_summary = Some ''curl could crash'', adv_cves = [''CVE-1'']\<rparr>),
            (''USN-2'', \<lparr>releases = [(''xenial'', \<lparr>binaries = [(''vim'', \<lparr>bin_version = ''8.0''\<rparr>)]\<rparr>)],
                  isummary = None, adv_summary = None, adv_cves = []\<rparr>)]
           (Codename ''bionic'')) = []"
proof -
  let ?d = "[(''USN-1'', \<lparr>releases = [(''bionic'', \<lparr>binaries = [(''curl'', \<lparr>bin_version = ''7.58''\<rparr>),
                                                        (''libcurl4'', \<lparr>bin_version = ''7.58''\<rparr>)]\<rparr>)],
                  isummary = None, adv_summary = Some ''curl could crash'', adv_cves = [''CVE-1'']\<rparr>),
            (''USN-2'', \<lparr>releases = [(''xenial'', \<lparr>binaries = [(''vim'', \<lparr>bin_version = ''8.0''\<rparr>)]\<rparr>)],
                  isummary = None, adv_summary = None, adv_cves = []\<rparr>)]"
  have u: "unique_keys ?d"
    by (simp add: unique_keys_def)
  from filter_db_exact [OF u, of "Codename ''bionic''"] u show ?thesis
    by simp
qed

section \<open>Properties of the scan loop\<close>

lemma alerts_append: "alerts (xs @ ys) = alerts xs @ alerts ys"
  by (induction xs rule: alerts.induct) simp_all

lemma cross_reference_skip:
  "\<not> vulnerable e t \<or> (ALERT_ONCE cfg \<and> is_registered (registry_of s) (unt t)) \<Longrightarrow>
   cross_reference e cfg s t = s"
  by (auto simp: cross_reference_def vulnerable_def split: option.splits)

lemma cross_reference_alert:
  "vulnerable e t \<Longrightarrow> \<not> ALERT_ONCE cfg \<or> \<not> is_registered (registry_of s) (unt t) \<Longrightarrow>
   \<exists>v. cache e (name t) = Some (Some v) \<and>
     cross_reference e cfg s t =
       s\<lparr>registry_of := register (registry_of s) (unt t), issues_found := True,
         world_of := print (Alert t v) (world_of s)\<rparr>"
  by (auto simp: cross_reference_def vulnerable_def split: option.splits)

text \<open>What one pass of the body does to the registry, the flag and the printed alerts.\<close>

lemma cross_reference_effect:
  "registry (registry_of (cross_reference e cfg s t)) =
     registry (registry_of s) @
       (if vulnerable e t \<and> (ALERT_ONCE cfg \<longrightarrow> unt t \<notin> set (registry (registry_of s))) then [unt t] else [])"
  "alerts (stdout (world_of (cross_reference e cfg s t))) =
     alerts (stdout (world_of s)) @
       (if vulnerable e t \<and> (ALERT_ONCE cfg \<longrightarrow> unt t \<notin> set (registry (registry_of s))) then [t] else [])"
  "issues_found (cross_reference e cfg s t) =
     (issues_found s \<or> (vulnerable e t \<and> (ALERT_ONCE cfg \<longrightarrow> unt t \<notin> set (registry (registry_of s)))))"
  "storage_file (registry_of (cross_reference e cfg s t)) = storage_file (registry_of s)"
  "files (world_of (cross_reference e cfg s t)) = files (world_of s)"
  "nodes (world_of (cross_reference e cfg s t)) = nodes (world_of s)"
  "requests (world_of (cross_reference e cfg s t)) = requests (world_of s)"
  by (auto simp: cross_reference_def vulnerable_def is_registered_iff register_def print_def
      alerts_append split: option.splits)

lemma scan_loop_frame:
  "storage_file (registry_of (scan_loop e cfg s ts)) = storage_file (registry_of s)
   \<and> files (world_of (scan_loop e cfg s ts)) = files (world_of s)
   \<and> nodes (world_of (scan_loop e cfg s ts)) = nodes (world_of s)
   \<and> requests (world_of (scan_loop e cfg s ts)) = requests (world_of s)"
  by (induction ts arbitrary: s) (simp_all add: cross_reference_effect)

text \<open>With every alert shown, each vulnerable item is printed and its identifier appended.\<close>

lemma scan_loop_all:
  "\<not> ALERT_ONCE cfg \<Longrightarrow>
   registry (registry_of (scan_loop e cfg s ts)) =
     registry (registry_of s) @ map unt (filter (vulnerable e) ts)
   \<and> alerts (stdout (world_of (scan_loop e cfg s ts))) =
     alerts (stdout (world_of s)) @ filter (vulnerable e) ts
   \<and> issues_found (scan_loop e cfg s ts) = (issues_found s \<or> filter (vulnerable e) ts \<noteq> [])"
  by (induction ts arbitrary: s) (auto simp: cross_reference_effect)

text \<open>Under alert-once: the invariant of the loop.\<close>

lemma scan_loop_once:
  "ALERT_ONCE cfg \<Longrightarrow>
   \<exists>new. alerts (stdout (world_of (scan_loop e cfg s ts))) = alerts (stdout (world_of s)) @ new
     \<and> registry (registry_of (scan_loop e cfg s ts)) = registry (registry_of s) @ map unt new
     \<and> distinct (map unt new)
     \<and> set (map unt new) \<inter> set (registry (registry_of s)) = {}
     \<and> (\<forall>t \<in> set new. find (\<lambda>x. vulnerable e x \<and> unt x = unt t) ts = Some t)
     \<and> (\<forall>t \<in> set ts. vulnerable e t \<longrightarrow> unt t \<in> set (registry (registry_of s) @ map unt new))
     \<and> issues_found (scan_loop e cfg s ts) = (issues_found s \<or> new \<noteq> [])"
proof (induction ts arbitrary: s)
  case Nil
  then show ?case by simp
next
  case (Cons t ts)
  let ?s1 = "cross_reference e cfg s t"
  let ?fire = "vulnerable e t \<and> unt t \<notin> set (registry (registry_of s))"
  let ?n1 = "if ?fire then [t] else []"
  have r1: "registry (registry_of ?s1) = registry (registry_of s) @ map unt ?n1"
    and a1: "alerts (stdout (world_of ?s1)) = alerts (stdout (world_of s)) @ ?n1"
    and i1: "issues_found ?s1 = (issues_found s \<or> ?n1 \<noteq> [])"
    using Cons.prems by (auto simp add: cross_reference_effect)
  from Cons.IH [OF Cons.prems, of ?s1] obtain new where
    a2: "alerts (stdout (world_of (scan_loop e cfg ?s1 ts))) = alerts (stdout (world_of ?s1)) @ new"
    and r2: "registry (registry_of (scan_loop e cfg ?s1 ts)) = registry (registry_of ?s1) @ map unt new"
    and d2: "distinct (map unt new)"
    and x2: "set (map unt new) \<inter> set (registry (registry_of ?s1)) = {}"
    and f2: "\<forall>x \<in> set new. find (\<lambda>y. vulnerable e y \<and> unt y = unt x) ts = Some x"
    and c2: "\<forall>x \<in> set ts. vulnerable e x \<longrightarrow> unt x \<in> set (registry (registry_of ?s1) @ map unt new)"
    and i2: "issues_found (scan_loop e cfg ?s1 ts) = (issues_found ?s1 \<or> new \<noteq> [])"
    by blast
  let ?new = "?n1 @ new"
  have A: "alerts (stdout (world_of (scan_loop e cfg s (t # ts)))) = alerts (stdout (world_of s)) @ ?new"
    using a1 a2 by simp
  have R: "registry (registry_of (scan_loop e cfg s (t # ts))) = registry (registry_of s) @ map unt ?new"
    using r1 r2 by simp
  have D: "distinct (map unt ?new)"
    using d2 x2 r1 by auto
  have X: "set (map unt ?new) \<inter> set (registry (registry_of s)) = {}"
    using x2 r1 by auto
  have covered: "vulnerable e t \<Longrightarrow> unt t \<in> set (registry (registry_of ?s1))"
    using r1 by auto
  have F: "\<forall>x \<in> set ?new. find (\<lambda>y. vulnerable e y \<and> unt y = unt x) (t # ts) = Some x"
  proof
    fix x assume x: "x \<in> set ?new"
    show "find (\<lambda>y. vulnerable e y \<and> unt y = unt x) (t # ts) = Some x"
    proof (cases "x \<in> set ?n1")
      case True
      then have "x = t" and "vulnerable e t" by (auto split: if_splits)
      then show ?thesis by simp
    next
      case False
      with x have xn: "x \<in> set new" by auto
      then have "unt x \<notin> set (registry (registry_of ?s1))" using x2 by auto
      with covered have "\<not> (vulnerable e t \<and> unt t = unt x)" by auto
      with f2 xn show ?thesis by auto
    qed
  qed
  have C: "\<forall>x \<in> set (t # ts). vulnerable e x \<longrightarrow> unt x \<in> set (registry (registry_of s) @ map unt ?new)"
    using c2 r1 covered by auto
  have I: "issues_found (scan_loop e cfg s (t # ts)) = (issues_found s \<or> ?new \<noteq> [])"
    using i1 i2 by auto
  from A R D X F C I show ?case by blast
qed

lemma emitted_append: "emitted (xs @ ys) = emitted xs @ emitted ys"
  by (simp add: emitted_def alerts_append)

lemma stdout_save: "save r w = Inr w' \<Longrightarrow> stdout w' = stdout w"
  by (auto simp: save_eq split: if_splits)

lemma init_stdout: "AlertRegistry_init p w = (w', res) \<Longrightarrow> stdout w' = stdout w"
  by (auto simp: AlertRegistry_init_def save_eq Let_def
      split: option.splits bytes.splits if_splits)

lemma init_error: "AlertRegistry_init p w = (w', Inl err) \<Longrightarrow> w' = w"
  by (auto simp: AlertRegistry_init_def save_eq Let_def
      split: option.splits bytes.splits if_splits)

lemma init_ok: "AlertRegistry_init p w = (w', Inr r) \<Longrightarrow> storage_file r = p"
  by (auto simp: AlertRegistry_init_def save_eq Let_def
      split: option.splits bytes.splits if_splits)

text \<open>A load that succeeds found the directory of the path.\<close>

lemma init_directory: "AlertRegistry_init p w = (w', Inr r) \<Longrightarrow> directory_exists w' p"
  by (auto simp: AlertRegistry_init_def save_eq read_file_def directory_exists_def Let_def
      split: option.splits bytes.splits if_splits)

text \<open>
  After a load that succeeded, the \<open>save()\<close> at the end of the loop succeeds, prints
  nothing, and leaves a file from which the saved registry is loaded again.
\<close>

lemma save_after_loop:
  assumes "AlertRegistry_init p w = (w0, Inr r)"
  shows "\<exists>w'. save (registry_of (scan_loop e cfg \<lparr>registry_of = r, issues_found = b, world_of = w0\<rparr> ts))
               (world_of (scan_loop e cfg \<lparr>registry_of = r, issues_found = b, world_of = w0\<rparr> ts))
             = Inr w'
      \<and> stdout w' =
          stdout (world_of (scan_loop e cfg \<lparr>registry_of = r, issues_found = b, world_of = w0\<rparr> ts))
      \<and> AlertRegistry_init p w' =
          (w', Inr (registry_of (scan_loop e cfg \<lparr>registry_of = r, issues_found = b, world_of = w0\<rparr> ts)))"
proof -
  let ?start = "\<lparr>registry_of = r, issues_found = b, world_of = w0\<rparr>"
  let ?fin = "scan_loop e cfg ?start ts"
  have sf: "storage_file r = p"
    using assms by (rule init_ok)
  have dir: "directory_exists w0 p"
    using assms by (rule init_directory)
  from scan_loop_frame [where e = e and cfg = cfg and s = ?start and ts = ts]
  have sfs: "storage_file (registry_of ?fin) = p"
    using sf by simp
  from scan_loop_frame [where e = e and cfg = cfg and s = ?start and ts = ts]
  have nd: "nodes (world_of ?fin) = nodes w0"
    by simp
  from dir directory_exists_nodes [OF nd, of p] have de: "directory_exists (world_of ?fin) p"
    by simp
  have "\<exists>w'. save (registry_of ?fin) (world_of ?fin) = Inr w'"
    unfolding save_eq sfs using de by simp
  then obtain w' where sv: "save (registry_of ?fin) (world_of ?fin) = Inr w'" ..
  from init_after_save [OF sv] have "AlertRegistry_init (storage_file (registry_of ?fin)) w' = (w', Inr (registry_of ?fin))" .
  then have ld: "AlertRegistry_init p w' = (w', Inr (registry_of ?fin))"
    unfolding sfs .
  from sv stdout_save [OF sv] ld show ?thesis by blast
qed

text \<open>
  C10. Under alert-once, in one pass of the loop over the filtered items, starting with no
  alert printed: no advisory identifier is printed twice; each alert printed is for the
  first vulnerable item of its advisory, one that the registry did not hold before;
  the registry grows by exactly the identifiers printed, in order; and after the loop every
  vulnerable item's advisory is registered, so a later item of the same advisory is
  suppressed.
\<close>

theorem alert_once_single_report:
  assumes "ALERT_ONCE cfg" and "alerts (stdout (world_of s)) = []"
  shows "distinct (emitted (stdout (world_of (scan_loop e cfg s ts))))
    \<and> (\<forall>t \<in> set (alerts (stdout (world_of (scan_loop e cfg s ts)))).
          find (\<lambda>x. vulnerable e x \<and> unt x = unt t) ts = Some t
          \<and> \<not> is_registered (registry_of s) (unt t))
    \<and> registry (registry_of (scan_loop e cfg s ts)) =
          registry (registry_of s) @ emitted (stdout (world_of (scan_loop e cfg s ts)))
    \<and> (\<forall>t \<in> set ts. vulnerable e t \<longrightarrow> is_registered (registry_of (scan_loop e cfg s ts)) (unt t))"
proof -
  from scan_loop_once [OF assms(1), where e = e and s = s and ts = ts] obtain new where
    a: "alerts (stdout (world_of (scan_loop e cfg s ts))) = alerts (stdout (world_of s)) @ new"
    and r: "registry (registry_of (scan_loop e cfg s ts)) = registry (registry_of s) @ map unt new"
    and d: "distinct (map unt new)"
    and x: "set (map unt new) \<inter> set (registry (registry_of s)) = {}"
    and f: "\<forall>t \<in> set new. find (\<lambda>x. vulnerable e x \<and> unt x = unt t) ts = Some t"
    and c: "\<forall>t \<in> set ts. vulnerable e t \<longrightarrow> unt t \<in> set (registry (registry_of s) @ map unt new)"
    by blast
  from a assms(2) have a': "alerts (stdout (world_of (scan_loop e cfg s ts))) = new"
    by simp
  have "distinct (emitted (stdout (world_of (scan_loop e cfg s ts))))"
    using d a' by (simp add: emitted_def)
  moreover have "\<forall>t \<in> set (alerts (stdout (world_of (scan_loop e cfg s ts)))).
          find (\<lambda>x. vulnerable e x \<and> unt x = unt t) ts = Some t
          \<and> \<not> is_registered (registry_of s) (unt t)"
    using f x a' by (auto simp: is_registered_iff)
  moreover have "registry (registry_of (scan_loop e cfg s ts)) =
          registry (registry_of s) @ emitted (stdout (world_of (scan_loop e cfg s ts)))"
    using r a' by (simp add: emitted_def)
  moreover have "\<forall>t \<in> set ts. vulnerable e t \<longrightarrow> is_registered (registry_of (scan_loop e cfg s ts)) (unt t)"
    using c r by (simp add: is_registered_iff)
  ultimately show ?thesis by blast
qed

theorem alert_once_single_report_witness:
  "ALERT_ONCE CONFIG \<and> alerts (stdout example_world) = []
   \<and> length (filter (vulnerable example_host) (filter_db example_feed (Codename ''bionic''))) = 2
   \<and> emitted (stdout (world_of (scan_loop example_host CONFIG
         \<lparr>registry_of = \<lparr>storage_file = ''/var/lib/unt-scan/alerts.pickle'', registry = []\<rparr>,
          issues_found = False, world_of = example_world\<rparr>
         (filter_db example_feed (Codename ''bionic''))))) = [''USN-42-1'']
   \<and> registry (registry_of (scan_loop example_host CONFIG
         \<lparr>registry_of = \<lparr>storage_file = ''/var/lib/unt-scan/alerts.pickle'', registry = []\<rparr>,
          issues_found = False, world_of = example_world\<rparr>
         (filter_db example_feed (Codename ''bionic'')))) = [''USN-42-1'']"
  using alert_once_single_report [of CONFIG
      "\<lparr>registry_of = \<lparr>storage_file = ''/var/lib/unt-scan/alerts.pickle'', registry = []\<rparr>,
          issues_found = False, world_of = example_world\<rparr>"
      example_host "filter_db example_feed (Codename ''bionic'')"]
  by (simp add: run_defs example_defs vulnerable_def)

text \<open>
  C2. With alert-once enabled, two runs of the scan on the same database, codename and
  inventory, the second starting from the world the first left (so with the registry
  file it saved), standard output being kept across both: no advisory identifier is
  printed twice in the two runs together, the second run prints no alert, and every
  identifier the first run printed is held by the registry that the second run loads.
\<close>

theorem alert_once_two_runs:
  assumes once: "ALERT_ONCE cfg" and clean: "alerts (stdout w) = []"
    and run1: "scan e cfg d c w = (w1, o1)" and run2: "scan e cfg d c w1 = (w2, o2)"
  shows "distinct (emitted (stdout w2))
    \<and> emitted (stdout w2) = emitted (stdout w1)
    \<and> (\<forall>u \<in> set (emitted (stdout w1)).
          \<exists>r. AlertRegistry_init (path_join (DIRECTORY cfg) ''alerts.pickle'') w1 = (w1, Inr r)
            \<and> is_registered r u)
    \<and> ((\<exists>n. o1 = Exit n) \<longrightarrow> o2 = Exit 0)"
proof -
  let ?p = "path_join (DIRECTORY cfg) ''alerts.pickle''"
  obtain w0 res where init: "AlertRegistry_init ?p w = (w0, res)"
    by (cases "AlertRegistry_init ?p w")
  show ?thesis
  proof (cases res)
    case (Inl err)
    with init have "w0 = w" by (simp add: init_error)
    with init Inl run1 have "w1 = w" "o1 = Uncaught err" by (auto simp: scan_def)
    with run2 run1 have "w2 = w" by simp
    with \<open>w1 = w\<close> \<open>o1 = Uncaught err\<close> clean show ?thesis by (simp add: emitted_def)
  next
    case (Inr r)
    let ?start = "\<lparr>registry_of = r, issues_found = False, world_of = w0\<rparr>"
    let ?items = "filter_db d c"
    let ?first = "scan_loop e cfg ?start ?items"
    from init have out0: "stdout w0 = stdout w" by (rule init_stdout)
    from init Inr have init0: "AlertRegistry_init ?p w = (w0, Inr r)" by simp
    from save_after_loop [OF init0, where e = e and cfg = cfg and b = False and ts = ?items]
    obtain v1 where sv1: "save (registry_of ?first) (world_of ?first) = Inr v1"
      and out1: "stdout v1 = stdout (world_of ?first)"
      and load1: "AlertRegistry_init ?p v1 = (v1, Inr (registry_of ?first))"
      by blast
    from init0 sv1 run1 have w1: "w1 = v1"
      by (simp add: scan_def Let_def)
    have clean0: "alerts (stdout (world_of ?start)) = []"
      using out0 clean by simp
    from scan_loop_once [OF once, where e = e and s = ?start and ts = ?items] obtain new1 where
      a1: "alerts (stdout (world_of ?first)) = alerts (stdout (world_of ?start)) @ new1"
      and r1: "registry (registry_of ?first) = registry (registry_of ?start) @ map unt new1"
      and dn1: "distinct (map unt new1)"
      and c1: "\<forall>t \<in> set ?items. vulnerable e t \<longrightarrow>
                 unt t \<in> set (registry (registry_of ?start) @ map unt new1)"
      by blast
    from a1 clean0 have e1: "emitted (stdout (world_of ?first)) = map unt new1"
      by (simp add: emitted_def)
    have d1: "distinct (emitted (stdout (world_of ?first)))"
      using dn1 e1 by simp
    have reg1: "registry (registry_of ?first) = registry r @ emitted (stdout (world_of ?first))"
      using r1 e1 by simp
    have cov1: "\<forall>t \<in> set ?items. vulnerable e t \<longrightarrow> is_registered (registry_of ?first) (unt t)"
      using c1 r1 by (simp add: is_registered_iff)
    have init2: "AlertRegistry_init ?p w1 = (w1, Inr (registry_of ?first))"
      using load1 w1 by simp
    let ?again = "\<lparr>registry_of = registry_of ?first, issues_found = False, world_of = w1\<rparr>"
    let ?second = "scan_loop e cfg ?again ?items"
    from save_after_loop [OF init2, where e = e and cfg = cfg and b = False and ts = ?items]
    obtain v2 where sv2: "save (registry_of ?second) (world_of ?second) = Inr v2"
      and out2: "stdout v2 = stdout (world_of ?second)"
      by blast
    from init2 sv2 run2 have w2: "w2 = v2"
      and o2: "o2 = (if issues_found ?second then Exit 1 else Exit 0)"
      by (simp_all add: scan_def Let_def)
    from scan_loop_once [OF once, where e = e and s = ?again and ts = ?items] obtain new where
      a2: "alerts (stdout (world_of ?second)) = alerts (stdout (world_of ?again)) @ new"
      and x2: "set (map unt new) \<inter> set (registry (registry_of ?again)) = {}"
      and f2: "\<forall>t \<in> set new. find (\<lambda>x. vulnerable e x \<and> unt x = unt t) ?items = Some t"
      and i2: "issues_found ?second = (issues_found ?again \<or> new \<noteq> [])"
      by blast
    have "new = []"
    proof (rule ccontr)
      assume "new \<noteq> []"
      then obtain t where t: "t \<in> set new" by (cases new) auto
      with f2 have "find (\<lambda>x. vulnerable e x \<and> unt x = unt t) ?items = Some t" by blast
      then have "t \<in> set ?items" and "vulnerable e t"
        by (auto simp: find_Some_iff)
      with cov1 have "unt t \<in> set (registry (registry_of ?first))"
        by (simp add: is_registered_iff)
      with x2 t show False by auto
    qed
    with a2 have same: "alerts (stdout w2) = alerts (stdout w1)"
      using w2 out2 by simp
    from \<open>new = []\<close> i2 o2 have "o2 = Exit 0" by simp
    moreover have "distinct (emitted (stdout w2))"
      using same d1 w1 out1 by (simp add: emitted_def)
    moreover have "emitted (stdout w2) = emitted (stdout w1)"
      using same by (simp add: emitted_def)
    moreover have "\<forall>u \<in> set (emitted (stdout w1)).
          \<exists>r. AlertRegistry_init ?p w1 = (w1, Inr r) \<and> is_registered r u"
      using init2 reg1 w1 out1 by (auto simp: is_registered_iff)
    ultimately show ?thesis by blast
  qed
qed

theorem alert_once_two_runs_witness:
  "ALERT_ONCE CONFIG \<and> alerts (stdout example_world) = []
   \<and> snd (scan example_host CONFIG example_feed (Codename ''bionic'') example_world) = Exit 1
   \<and> emitted (stdout (fst (scan example_host CONFIG example_feed (Codename ''bionic'') example_world)))
        = [''USN-42-1'']
   \<and> snd (scan example_host CONFIG example_feed (Codename ''bionic'')
         (fst (scan example_host CONFIG example_feed (Codename ''bionic'') example_world))) = Exit 0
   \<and> emitted (stdout (fst (scan example_host CONFIG example_feed (Codename ''bionic'')
         (fst (scan example_host CONFIG example_feed (Codename ''bionic'') example_world)))))
        = [''USN-42-1'']"
  using alert_once_two_runs [of CONFIG example_world example_host example_feed "Codename ''bionic''"
      "fst (scan example_host CONFIG example_feed (Codename ''bionic'') example_world)"
      "snd (scan example_host CONFIG example_feed (Codename ''bionic'') example_world)"
      "fst (scan example_host CONFIG example_feed (Codename ''bionic'')
         (fst (scan example_host CONFIG example_feed (Codename ''bionic'') example_world)))"
      "snd (scan example_host CONFIG example_feed (Codename ''bionic'')
         (fst (scan example_host CONFIG example_feed (Codename ''bionic'') example_world)))"]
  by (simp add: run_defs example_defs)

text \<open>
  C8, as stated, fails: with \<open>-a\<close> on a registry that holds \<open>USN-42-1\<close>, both
  vulnerable packages of the advisory are reported and the identifier is appended for each
  alert, so the saved registry holds it three times.
\<close>

theorem show_all_registers_again:
  "stdout (fst (main example_host (Parsed [(''-a'', [])] [])
      (example_world\<lparr>files := [''/var/lib/unt-scan/alerts.pickle'' \<mapsto> Pickled_registry [''USN-42-1'']]\<rparr>)))
     = [Alert \<lparr>unt = ''USN-42-1'', name = ''curl'', version = ''7.58.0-2ubuntu3.8'',
               summary = ''curl vulnerability'', cves = [''CVE-2019-5436'']\<rparr> ''7.58.0-2ubuntu3.6'',
        Alert \<lparr>unt = ''USN-42-1'', name = ''libcurl4'', version = ''7.58.0-2ubuntu3.8'',
               summary = ''curl vulnerability'', cves = [''CVE-2019-5436'']\<rparr> ''7.58.0-2ubuntu3.6'']
   \<and> files (fst (main example_host (Parsed [(''-a'', [])] [])
      (example_world\<lparr>files := [''/var/lib/unt-scan/alerts.pickle'' \<mapsto> Pickled_registry [''USN-42-1'']]\<rparr>)))
      ''/var/lib/unt-scan/alerts.pickle''
     = Some (Pickled_registry [''USN-42-1'', ''USN-42-1'', ''USN-42-1''])"
  by (simp add: run_defs example_defs)

text \<open>
  C8, as amended. With alert-once disabled, one alert is printed for every vulnerable item,
  in order, and the identifier of each of them is appended to the registry, whether the
  registry held it already or not.
\<close>

theorem show_all_appends_every_alert:
  assumes "\<not> ALERT_ONCE cfg"
  shows "alerts (stdout (world_of (scan_loop e cfg s ts))) =
           alerts (stdout (world_of s)) @ filter (vulnerable e) ts
    \<and> registry (registry_of (scan_loop e cfg s ts)) =
           registry (registry_of s) @ map unt (filter (vulnerable e) ts)"
  using scan_loop_all [OF assms, where e = e and s = s and ts = ts] by simp

theorem show_all_appends_every_alert_witness:
  "\<not> ALERT_ONCE (CONFIG\<lparr>ALERT_ONCE := False\<rparr>)
   \<and> registry (registry_of (scan_loop example_host (CONFIG\<lparr>ALERT_ONCE := False\<rparr>)
         \<lparr>registry_of = \<lparr>storage_file = ''/var/lib/unt-scan/alerts.pickle'', registry = [''USN-7-1'']\<rparr>,
          issues_found = False, world_of = example_world\<rparr>
         (filter_db example_feed (Codename ''bionic'')))) = [''USN-7-1'', ''USN-42-1'', ''USN-42-1'']
   \<and> map name (alerts (stdout (world_of (scan_loop example_host (CONFIG\<lparr>ALERT_ONCE := False\<rparr>)
         \<lparr>registry_of = \<lparr>storage_file = ''/var/lib/unt-scan/alerts.pickle'', registry = [''USN-7-1'']\<rparr>,
          issues_found = False, world_of = example_world\<rparr>
         (filter_db example_feed (Codename ''bionic'')))))) = [''curl'', ''libcurl4'']"
  using show_all_appends_every_alert [of "CONFIG\<lparr>ALERT_ONCE := False\<rparr>" example_host
      "\<lparr>registry_of = \<lparr>storage_file = ''/var/lib/unt-scan/alerts.pickle'', registry = [''USN-7-1'']\<rparr>,
          issues_found = False, world_of = example_world\<rparr>"
      "filter_db example_feed (Codename ''bionic'')"]
  by (simp add: run_defs example_defs vulnerable_def)

section \<open>Properties of the whole run\<close>

lemma scan_loop_flag:
  "\<exists>new. alerts (stdout (world_of (scan_loop e cfg s ts))) = alerts (stdout (world_of s)) @ new
      \<and> issues_found (scan_loop e cfg s ts) = (issues_found s \<or> new \<noteq> [])"
proof (cases "ALERT_ONCE cfg")
  case True
  from scan_loop_once [OF True, where e = e and s = s and ts = ts] show ?thesis by blast
next
  case False
  from scan_loop_all [OF False, where e = e and s = s and ts = ts] show ?thesis by blast
qed

lemma scan_status:
  assumes "alerts (stdout w) = []" and "scan e cfg d c w = (w', out)"
  shows "(out = Exit 1 \<longleftrightarrow> alerts (stdout w') \<noteq> [])
       \<and> (alerts (stdout w') = [] \<longrightarrow> out = Exit 0 \<or> (\<exists>err. out = Uncaught err))"
proof -
  let ?p = "path_join (DIRECTORY cfg) ''alerts.pickle''"
  obtain w0 res where init: "AlertRegistry_init ?p w = (w0, res)"
    by (cases "AlertRegistry_init ?p w")
  then have out0: "stdout w0 = stdout w" by (rule init_stdout)
  show ?thesis
  proof (cases res)
    case (Inl err)
    with init assms(2) have "out = Uncaught err" "w' = w0" by (auto simp: scan_def)
    with out0 assms(1) show ?thesis by simp
  next
    case (Inr r)
    let ?start = "\<lparr>registry_of = r, issues_found = False, world_of = w0\<rparr>"
    let ?fin = "scan_loop e cfg ?start (filter_db d c)"
    from init Inr have init0: "AlertRegistry_init ?p w = (w0, Inr r)" by simp
    from save_after_loop [OF init0, where e = e and cfg = cfg and b = False and ts = "filter_db d c"]
    obtain v where sv: "save (registry_of ?fin) (world_of ?fin) = Inr v"
      and outv: "stdout v = stdout (world_of ?fin)"
      by blast
    from init0 sv assms(2) have w': "w' = v"
      and out: "out = (if issues_found ?fin then Exit 1 else Exit 0)"
      by (simp_all add: scan_def Let_def)
    from scan_loop_flag [of e cfg ?start "filter_db d c"] obtain new where
      "alerts (stdout (world_of ?fin)) = alerts (stdout (world_of ?start)) @ new"
      "issues_found ?fin = (issues_found ?start \<or> new \<noteq> [])"
      by blast
    with out0 assms(1) have "alerts (stdout w') = new" "issues_found ?fin = (new \<noteq> [])"
      using w' outv by simp_all
    with out show ?thesis by auto
  qed
qed

lemma show_age_alerts: "alerts (stdout (show_age e cfg w)) = alerts (stdout w)"
  by (auto simp: show_age_def print_def alerts_append split: option.splits bytes.splits)

lemma option_step_alerts:
  "option_step e args oa cfg cn w = (w', res) \<Longrightarrow> alerts (stdout w') = alerts (stdout w)"
  by (auto simp: option_step_def Let_def show_help_def print_def alerts_append show_age_alerts
      split: if_splits sum.splits)

lemma option_step_outcome:
  "option_step e args oa cfg cn w = (w', Inl out) \<Longrightarrow> out = Exit 0 \<or> (\<exists>err. out = Uncaught err)"
  by (auto simp: option_step_def Let_def show_help_def split: if_splits sum.splits)

lemma options_alerts:
  "options e args opts cfg cn w = (w', res) \<Longrightarrow> alerts (stdout w') = alerts (stdout w)"
proof (induction opts arbitrary: cfg cn w)
  case Nil
  then show ?case by simp
next
  case (Cons oa opts)
  obtain w1 r1 where step: "option_step e args oa cfg cn w = (w1, r1)"
    by (cases "option_step e args oa cfg cn w")
  then have a1: "alerts (stdout w1) = alerts (stdout w)" by (rule option_step_alerts)
  show ?case
  proof (cases r1)
    case (Inl out)
    with step Cons.prems have "w' = w1" by simp
    with a1 show ?thesis by simp
  next
    case (Inr p)
    obtain cfg' cn' where p: "p = (cfg', cn')" by (cases p)
    with Inr step Cons.prems have "options e args opts cfg' cn' w1 = (w', res)" by simp
    from Cons.IH [OF this] a1 show ?thesis by simp
  qed
qed

lemma options_outcome:
  "options e args opts cfg cn w = (w', Inl out) \<Longrightarrow> out = Exit 0 \<or> (\<exists>err. out = Uncaught err)"
proof (induction opts arbitrary: cfg cn w)
  case Nil
  then show ?case by simp
next
  case (Cons oa opts)
  obtain w1 r1 where step: "option_step e args oa cfg cn w = (w1, r1)"
    by (cases "option_step e args oa cfg cn w")
  show ?case
  proof (cases r1)
    case (Inl o1)
    with step Cons.prems have "out = o1" by simp
    with Inl step option_step_outcome show ?thesis by blast
  next
    case (Inr p)
    obtain cfg' cn' where p: "p = (cfg', cn')" by (cases p)
    with Inr step Cons.prems have "options e args opts cfg' cn' w1 = (w', Inl out)" by simp
    from Cons.IH [OF this] show ?thesis .
  qed
qed

lemma ensure_directory_stdout: "ensure_directory cfg w = (w', res) \<Longrightarrow> stdout w' = stdout w"
  by (auto simp: ensure_directory_def split: option.splits node.splits if_splits)

lemma write_file_stdout: "write_file p b w = Inr w' \<Longrightarrow> stdout w' = stdout w"
  by (auto simp: write_file_def split: if_splits)

lemma download_stdout: "download e cfg w = (w', res) \<Longrightarrow> stdout w' = stdout w"
  by (auto simp: download_def Let_def send_def
      split: option.splits if_splits sum.splits dest!: write_file_stdout)

lemma database_file_stdout: "database_file e cfg w = (w', res) \<Longrightarrow> stdout w' = stdout w"
  by (auto simp: database_file_def Let_def send_def
      split: option.splits if_splits sum.splits bytes.splits
      dest!: download_stdout write_file_stdout)

text \<open>
  C3, as stated, fails: when the \<open>HEAD\<close> request is answered with 404 the script raises,
  no alert is printed and the process ends with status 1; and on an argument error no alert
  is printed and the status is 2, not 0.
\<close>

theorem status_without_alert:
  "alerts (stdout (fst (main
       (example_host\<lparr>head_response := Some \<lparr>status = 404, getheaders = [], body = Not_a_pickle\<rparr>\<rparr>)
       (Parsed [] []) example_world))) = []
   \<and> snd (main
       (example_host\<lparr>head_response := Some \<lparr>status = 404, getheaders = [], body = Not_a_pickle\<rparr>\<rparr>)
       (Parsed [] []) example_world) = Uncaught Unexpected_HEAD_response
   \<and> exit_status (snd (main
       (example_host\<lparr>head_response := Some \<lparr>status = 404, getheaders = [], body = Not_a_pickle\<rparr>\<rparr>)
       (Parsed [] []) example_world)) = 1
   \<and> alerts (stdout (fst (main example_host (GetoptError ''option -x not recognized'') example_world))) = []
   \<and> exit_status (snd (main example_host (GetoptError ''option -x not recognized'') example_world)) = 2"
  by (simp add: run_defs example_defs)

text \<open>
  C3, as amended. The process ends through \<open>sys.exit(1)\<close> if and only if at least one
  alert was printed during the run, so a run that printed an alert has status 1. A run that
  printed no alert, also one in which every vulnerable item was suppressed by the registry,
  ends with status 0 unless it is aborted: by an argument error, the only way to status 2,
  or by an exception that nothing catches.
\<close>

theorem exit_status_of_run:
  assumes "alerts (stdout w) = []" and "main e g w = (w', out)"
  shows "(out = Exit 1 \<longleftrightarrow> alerts (stdout w') \<noteq> [])
       \<and> (alerts (stdout w') \<noteq> [] \<longrightarrow> exit_status out = 1)
       \<and> (alerts (stdout w') = [] \<longrightarrow> out = Exit 0 \<or> out = Exit 2 \<or> (\<exists>err. out = Uncaught err))
       \<and> (out = Exit 2 \<longleftrightarrow> (\<exists>msg. g = GetoptError msg))"
proof (cases g)
  case (GetoptError msg)
  with assms show ?thesis
    by (auto simp: main_def print_def alerts_append)
next
  case (Parsed opts args)
  obtain w1 r1 where opt: "options e args opts CONFIG None w = (w1, r1)"
    by (cases "options e args opts CONFIG None w")
  then have a1: "alerts (stdout w1) = []"
    using options_alerts assms(1) by fastforce
  have core: "(out = Exit 1 \<longleftrightarrow> alerts (stdout w') \<noteq> [])
       \<and> (alerts (stdout w') = [] \<longrightarrow> out = Exit 0 \<or> (\<exists>err. out = Uncaught err))"
  proof (cases r1)
    case (Inl o1)
    with opt Parsed assms(2) have "w' = w1" "out = o1" by (auto simp: main_def)
    with Inl opt options_outcome [of e args opts CONFIG None w w1 o1] a1 show ?thesis by auto
  next
    case (Inr p)
    obtain cfg cn where p: "p = (cfg, cn)" by (cases p)
    note start = opt Inr p Parsed
    show ?thesis
    proof (cases "ALERT_ONCE cfg \<and> \<not> PERSISTENT_STORAGE cfg")
      case True
      with start assms(2) have "w' = w1" "out = Uncaught Cannot_track_alerts"
        by (auto simp: main_def)
      with a1 show ?thesis by simp
    next
      case False
      show ?thesis
      proof (cases "case cn of Some c \<Rightarrow> Inr c | None \<Rightarrow> get_codename e")
        case (Inl err)
        with start False assms(2) have "w' = w1" "out = Uncaught err"
          by (auto simp: main_def)
        with a1 show ?thesis by simp
      next
        case cname: (Inr codename)
        obtain w2 r2 where dir: "ensure_directory cfg w1 = (w2, r2)"
          by (cases "ensure_directory cfg w1")
        then have a2: "alerts (stdout w2) = []"
          using a1 ensure_directory_stdout by fastforce
        show ?thesis
        proof (cases r2)
          case (Inl err)
          with start False cname dir assms(2) have "w' = w2" "out = Uncaught err"
            by (auto simp: main_def)
          with a2 show ?thesis by simp
        next
          case dirok: (Inr u)
          obtain w3 r3 where dbf: "database_file e cfg w2 = (w3, r3)"
            by (cases "database_file e cfg w2")
          then have a3: "alerts (stdout w3) = []"
            using a2 database_file_stdout by fastforce
          show ?thesis
          proof (cases r3)
            case (Inl err)
            with start False cname dir dirok dbf assms(2) have "w' = w3" "out = Uncaught err"
              by (auto simp: main_def)
            with a3 show ?thesis by simp
          next
            case opened: (Inr db_file)
            show ?thesis
            proof (cases "pickle_load_db db_file")
              case (Inl err)
              with start False cname dir dirok dbf opened assms(2) have "w' = w3" "out = Uncaught err"
                by (auto simp: main_def)
              with a3 show ?thesis by simp
            next
              case (Inr d)
              with start False cname dir dirok dbf opened assms(2)
              have "scan e cfg d codename w3 = (w', out)"
                by (auto simp: main_def)
              from scan_status [OF a3 this] show ?thesis .
            qed
          qed
        qed
      qed
    qed
  qed
  then have "out \<noteq> Exit 2" by auto
  with core Parsed show ?thesis by auto
qed

theorem exit_status_of_run_witness:
  "alerts (stdout example_world) = []
   \<and> snd (main example_host (Parsed [] []) example_world) = Exit 1
   \<and> emitted (stdout (fst (main example_host (Parsed [] []) example_world))) = [''USN-42-1'']
   \<and> snd (main example_host (Parsed [] [])
         (example_world\<lparr>files := [''/var/lib/unt-scan/alerts.pickle'' \<mapsto> Pickled_registry [''USN-42-1'']]\<rparr>))
       = Exit 0
   \<and> stdout (fst (main example_host (Parsed [] [])
         (example_world\<lparr>files := [''/var/lib/unt-scan/alerts.pickle'' \<mapsto> Pickled_registry [''USN-42-1'']]\<rparr>)))
       = []"
  using exit_status_of_run [of example_world example_host "Parsed [] []"
      "fst (main example_host (Parsed [] []) example_world)"
      "snd (main example_host (Parsed [] []) example_world)"]
    exit_status_of_run [of
      "example_world\<lparr>files := [''/var/lib/unt-scan/alerts.pickle'' \<mapsto> Pickled_registry [''USN-42-1'']]\<rparr>"
      example_host "Parsed [] []"
      "fst (main example_host (Parsed [] [])
         (example_world\<lparr>files := [''/var/lib/unt-scan/alerts.pickle'' \<mapsto> Pickled_registry [''USN-42-1'']]\<rparr>))"
      "snd (main example_host (Parsed [] [])
         (example_world\<lparr>files := [''/var/lib/unt-scan/alerts.pickle'' \<mapsto> Pickled_registry [''USN-42-1'']]\<rparr>))"]
  by (simp add: run_defs example_defs)

text \<open>
  C9. At \<open>-c bionic\<close>, \<open>getopt\<close> gives \<open>opts = [('-c', 'bionic')]\<close> and
  \<open>args = []\<close>; the loop assigns \<open>args\<close>, not \<open>a\<close>, to \<open>codename\<close>. No key of a
  \<open>releases\<close> dict equals that list, so the run prints no alert and ends with status 0,
  while the same host without the option, its codename read from \<open>/etc/lsb-release\<close>,
  reports \<open>USN-42-1\<close>.
\<close>

theorem codename_option_takes_args:
  "options example_host [] [(''-c'', ''bionic'')] CONFIG None example_world
     = (example_world, Inr (CONFIG, Some (Arguments [])))
   \<and> stdout (fst (main example_host (Parsed [(''-c'', ''bionic'')] []) example_world)) = []
   \<and> snd (main example_host (Parsed [(''-c'', ''bionic'')] []) example_world) = Exit 0
   \<and> emitted (stdout (fst (main example_host (Parsed [] []) example_world))) = [''USN-42-1'']"
  by (simp add: run_defs example_defs)

section \<open>The age query\<close>

text \<open>
  \<open>show_age\<close> changes no file, directory or request log, and prints at most one line:
  an age or \<open>0\<close>.
\<close>

lemma show_age_frame:
  "files (show_age e cfg w) = files w \<and> nodes (show_age e cfg w) = nodes w
   \<and> requests (show_age e cfg w) = requests w
   \<and> (stdout (show_age e cfg w) = stdout w
        \<or> stdout (show_age e cfg w) = stdout w @ [Zero]
        \<or> (\<exists>age. stdout (show_age e cfg w) = stdout w @ [Age age]))"
  by (auto simp: show_age_def print_def split: option.splits bytes.splits)

lemma show_age_missing_file:
  "files w (path_join (DIRECTORY cfg) ''db.metadata.pickle'') = None \<Longrightarrow>
   show_age e cfg w = print Zero w"
  by (simp add: show_age_def read_file_def)

lemma age_query_exits_0:
  "main e (Parsed ((''-A'', a) # opts) args) w = (show_age e CONFIG w, Exit 0)"
  by (simp add: main_def option_step_def)

text \<open>
  C7. With a metadata file whose headers have no \<open>Last-Modified\<close> (here only an
  \<open>ETag\<close>), \<open>-A\<close> prints nothing at all: the process ends with status 0, the world
  unchanged and standard output empty.
\<close>

theorem age_prints_nothing:
  "main example_host (Parsed [(''-A'', [])] [])
     (example_world\<lparr>files := [''/var/lib/unt-scan/db.metadata.pickle'' \<mapsto> Pickled_headers [(''ETag'', ''abc'')]]\<rparr>)
   = (example_world\<lparr>files := [''/var/lib/unt-scan/db.metadata.pickle'' \<mapsto> Pickled_headers [(''ETag'', ''abc'')]]\<rparr>,
      Exit 0)
   \<and> stdout (example_world\<lparr>files := [''/var/lib/unt-scan/db.metadata.pickle'' \<mapsto> Pickled_headers [(''ETag'', ''abc'')]]\<rparr>) = []"
  by (simp add: run_defs example_defs)

section \<open>The freshness of the cache\<close>

lemma str_lt_irrefl: "\<not> str_lt s s"
  by (induction s) simp_all

text \<open>With an \<open>ETag\<close> on both sides it alone decides; \<open>Last-Modified\<close> is not read.\<close>

lemma update_flag_etag:
  "map_of headers ''ETag'' = Some new_etag \<Longrightarrow> map_of old_headers ''ETag'' = Some old_etag \<Longrightarrow>
   update_flag headers old_headers = (new_etag \<noteq> old_etag)"
  by (simp add: update_flag_def)

text \<open>
  With an \<open>ETag\<close> missing on a side and \<open>Last-Modified\<close> on both, the cache counts as
  fresh exactly when the stored value is below the new one in string order.
\<close>

lemma update_flag_last_modified:
  "map_of headers ''ETag'' = None \<or> map_of old_headers ''ETag'' = None \<Longrightarrow>
   map_of headers ''Last-Modified'' = Some new_modified \<Longrightarrow>
   map_of old_headers ''Last-Modified'' = Some old_modified \<Longrightarrow>
   update_flag headers old_headers = (\<not> str_lt old_modified new_modified)"
  by (auto simp: update_flag_def split: option.splits)

lemma update_flag_unchanged_last_modified:
  "map_of headers ''ETag'' = None \<or> map_of old_headers ''ETag'' = None \<Longrightarrow>
   map_of headers ''Last-Modified'' = Some modified \<Longrightarrow>
   map_of old_headers ''Last-Modified'' = Some modified \<Longrightarrow>
   update_flag headers old_headers"
  by (simp add: update_flag_last_modified str_lt_irrefl)

text \<open>
  C1. Without an \<open>ETag\<close>, when the stored and the new \<open>Last-Modified\<close> are the same
  string, \<open>update\<close> stays true and the \<open>GET\<close> is sent although \<open>db.pickle\<close> is there;
  when the stored value is below the new one in string order, \<open>update\<close> is false and
  only the \<open>HEAD\<close> is sent.
\<close>

theorem unchanged_last_modified_downloads:
  "update_flag [(''Last-Modified'', ''Wed, 21 Oct 2015 07:28:00 GMT'')]
               [(''Last-Modified'', ''Wed, 21 Oct 2015 07:28:00 GMT'')] = True
   \<and> requests (fst (database_file
        (example_host\<lparr>head_response := Some \<lparr>status = 200,
            getheaders = [(''Last-Modified'', ''Wed, 21 Oct 2015 07:28:00 GMT'')], body = Not_a_pickle\<rparr>\<rparr>)
        CONFIG
        (example_world\<lparr>files :=
           [''/var/lib/unt-scan/db.metadata.pickle'' \<mapsto>
              Pickled_headers [(''Last-Modified'', ''Wed, 21 Oct 2015 07:28:00 GMT'')],
            ''/var/lib/unt-scan/db.pickle'' \<mapsto> Pickled_db example_feed]\<rparr>))) = [HEAD, GET]
   \<and> update_flag [(''Last-Modified'', ''Wed, 21 Oct 2015 07:28:00 GMT'')]
               [(''Last-Modified'', ''Mon, 19 Oct 2015 07:28:00 GMT'')] = False
   \<and> requests (fst (database_file
        (example_host\<lparr>head_response := Some \<lparr>status = 200,
            getheaders = [(''Last-Modified'', ''Wed, 21 Oct 2015 07:28:00 GMT'')], body = Not_a_pickle\<rparr>\<rparr>)
        CONFIG
        (example_world\<lparr>files :=
           [''/var/lib/unt-scan/db.metadata.pickle'' \<mapsto>
              Pickled_headers [(''Last-Modified'', ''Mon, 19 Oct 2015 07:28:00 GMT'')],
            ''/var/lib/unt-scan/db.pickle'' \<mapsto> Pickled_db example_feed]\<rparr>))) = [HEAD]"
  by (simp add: run_defs example_defs)

section \<open>The order of versions\<close>

lemma epoch_decides:
  "digits_value 0 (fst (split_epoch a)) < digits_value 0 (fst (split_epoch b)) \<Longrightarrow>
   compare a b = Less \<and> compare b a = Greater"
  by (simp add: compare_def compare_int_def)

text \<open>
  C5, as stated, fails on the third example: \<open>1:0.9\<close> has epoch 1 and \<open>2.0\<close> has
  epoch 0, so the comparison is greater, not less.
\<close>

theorem epoch_example_not_less: "compare ''1:0.9'' ''2.0'' \<noteq> Less"
  by code_simp

text \<open>
  C5, as amended. \<open>compare("1.0", "1.0")\<close> is equal, \<open>compare("1.0", "1.1")\<close> is less,
  \<open>compare("1:0.9", "2.0")\<close> is greater and \<open>compare("2.0", "1:0.9")\<close> is less because the
  higher epoch dominates, and \<open>compare("1.0~rc1", "1.0")\<close> is less because \<open>~\<close> sorts
  before the end of the string.
\<close>

theorem version_ordering_examples:
  "compare ''1.0'' ''1.0'' = Equal
   \<and> compare ''1.0'' ''1.1'' = Less
   \<and> compare ''1:0.9'' ''2.0'' = Greater
   \<and> compare ''2.0'' ''1:0.9'' = Less
   \<and> compare ''1.0~rc1'' ''1.0'' = Less"
  by code_simp

end
